theory Spec2Isabelle
  imports Main "HOL-Library.Word" "HOL-Library.Sublist"
begin

unbundle bit_operations_syntax

section \<open>Constants of \<^verbatim>\<open>cftpfs.h\<close>\<close>

definition MAX_PATH_LEN :: nat where
  "MAX_PATH_LEN = 4096"

definition CACHE_TIMEOUT_DEFAULT :: int where
  "CACHE_TIMEOUT_DEFAULT = 30"

definition MAX_HANDLES :: nat where
  "MAX_HANDLES = 1024"

section \<open>C strings\<close>

text \<open>
  A C string is the list of its bytes before the terminating NUL, so the empty list is
  the string whose first byte is the terminator and \<open>length\<close> is \<^verbatim>\<open>strlen\<close>.
  The program never calls \<^verbatim>\<open>setlocale\<close>, so the character classes are those of the
  "C" locale.
\<close>

definition isspace :: "char \<Rightarrow> bool" where
  "isspace c = (let n = (of_char c :: nat) in n = 32 \<or> (9 \<le> n \<and> n \<le> 13))"

definition isdigit :: "char \<Rightarrow> bool" where
  "isdigit c = (let n = (of_char c :: nat) in 48 \<le> n \<and> n \<le> 57)"

definition tolower :: "char \<Rightarrow> char" where
  "tolower c = (let n = (of_char c :: nat) in if 65 \<le> n \<and> n \<le> 90 then char_of (n + 32) else c)"

text \<open>The comparison functions return only the sign, which is all the callers read.\<close>

fun strcmp :: "string \<Rightarrow> string \<Rightarrow> int" where
  "strcmp [] [] = 0"
| "strcmp [] (y # ys) = - 1"
| "strcmp (x # xs) [] = 1"
| "strcmp (x # xs) (y # ys) =
     (if x = y then strcmp xs ys
      else if (of_char x :: nat) < of_char y then - 1 else 1)"

fun strncmp :: "string \<Rightarrow> string \<Rightarrow> nat \<Rightarrow> int" where
  "strncmp a b 0 = 0"
| "strncmp [] [] (Suc n) = 0"
| "strncmp [] (y # ys) (Suc n) = - 1"
| "strncmp (x # xs) [] (Suc n) = 1"
| "strncmp (x # xs) (y # ys) (Suc n) =
     (if x = y then strncmp xs ys n
      else if (of_char x :: nat) < of_char y then - 1 else 1)"

fun strncasecmp :: "string \<Rightarrow> string \<Rightarrow> nat \<Rightarrow> int" where
  "strncasecmp a b 0 = 0"
| "strncasecmp [] [] (Suc n) = 0"
| "strncasecmp [] (y # ys) (Suc n) = - 1"
| "strncasecmp (x # xs) [] (Suc n) = 1"
| "strncasecmp (x # xs) (y # ys) (Suc n) =
     (if tolower x = tolower y then strncasecmp xs ys n
      else if (of_char (tolower x) :: nat) < of_char (tolower y) then - 1 else 1)"

fun strcasecmp :: "string \<Rightarrow> string \<Rightarrow> int" where
  "strcasecmp [] [] = 0"
| "strcasecmp [] (y # ys) = - 1"
| "strcasecmp (x # xs) [] = 1"
| "strcasecmp (x # xs) (y # ys) =
     (if tolower x = tolower y then strcasecmp xs ys
      else if (of_char (tolower x) :: nat) < of_char (tolower y) then - 1 else 1)"

text \<open>\<^verbatim>\<open>strncpy(dst, src, n); dst[n] = '\0'\<close> into a zeroed buffer keeps the first \<open>n\<close> bytes.\<close>

definition strncpy :: "string \<Rightarrow> nat \<Rightarrow> string" where
  "strncpy src n = take n src"

text \<open>\<^verbatim>\<open>strchr(s, c) != NULL\<close> for a byte \<open>c\<close> other than the terminator.\<close>

fun strchr :: "string \<Rightarrow> char \<Rightarrow> bool" where
  "strchr [] c = False"
| "strchr (x # xs) c = (if x = c then True else strchr xs c)"

text \<open>
  \<^verbatim>\<open>strrchr(s, c)\<close>: the offset of the last occurrence of \<open>c\<close>, \<open>None\<close> for a
  null pointer.
\<close>

fun strrchr :: "string \<Rightarrow> char \<Rightarrow> nat option" where
  "strrchr [] c = None"
| "strrchr (x # xs) c =
     (case strrchr xs c of
        Some i \<Rightarrow> Some (Suc i)
      | None \<Rightarrow> if x = c then Some 0 else None)"

text \<open>
  \<^verbatim>\<open>strstr(hay, needle)\<close>: the offset of the first occurrence of \<open>needle\<close>, \<open>None\<close>
  for a null pointer.
\<close>

fun strstr :: "string \<Rightarrow> string \<Rightarrow> nat option" where
  "strstr [] needle = (if needle = [] then Some 0 else None)"
| "strstr (x # xs) needle =
     (if strncmp (x # xs) needle (length needle) = 0 then Some 0
      else map_option Suc (strstr xs needle))"

section \<open>Data model\<close>

datatype ftp_item_type_t = FTP_TYPE_UNKNOWN | FTP_TYPE_FILE | FTP_TYPE_DIR | FTP_TYPE_LINK

text \<open>
  \<^verbatim>\<open>struct tm\<close> as the parsers fill it (the remaining fields stay zero), and the
  item of a listing. \<^verbatim>\<open>off_t\<close> is a 64-bit and \<^verbatim>\<open>int\<close> a 32-bit integer; both are
  words, so the digit loops wrap as the machine does.
\<close>

record tm =
  tm_year :: "32 word"
  tm_mon :: "32 word"
  tm_mday :: "32 word"
  tm_hour :: "32 word"
  tm_min :: "32 word"
  tm_sec :: "32 word"

record ftp_item_t =
  name :: string
  item_type :: ftp_item_type_t
  item_size :: "64 word"
  mtime :: int
  mode :: "32 word"

record cache_entry_t =
  path :: string
  items :: "ftp_item_t list"
  item_count :: int
  timestamp :: int

record file_handle_t =
  fd :: int
  fh_path :: string
  temp_path :: string
  flags :: "32 word"
  dirty :: bool
  is_new :: bool

text \<open>
  The calls made on the FTP adapter are recorded in the order they are issued; their
  outcome on the remote is not part of the model.
\<close>

datatype ftp_call =
    Ftp_download string string
  | Ftp_upload string string
  | Ftp_list_dir string
  | Ftp_rename string string

text \<open>
  The part of \<^verbatim>\<open>cftpfs_context_t\<close> the operations read and write. \<open>dir_cache\<close> is the
  linked list from its head; \<open>file_handles\<close> maps a slot to its handle, \<open>None\<close> for a
  null pointer; \<open>ftp_calls\<close> is the record of adapter calls, latest first; \<open>unlinked\<close>
  lists the spill files removed.
\<close>

record cftpfs_context_t =
  cache_timeout :: int
  dir_cache :: "cache_entry_t list"
  file_handles :: "nat \<Rightarrow> file_handle_t option"
  ftp_calls :: "ftp_call list"
  unlinked :: "string list"

section \<open>Directory cache (\<^verbatim>\<open>cache.c\<close>)\<close>

definition cache_init :: "cftpfs_context_t \<Rightarrow> cftpfs_context_t" where
  "cache_init ctx = ctx\<lparr>dir_cache := []\<rparr>"

definition cache_clear :: "cftpfs_context_t \<Rightarrow> cftpfs_context_t" where
  "cache_clear ctx = ctx\<lparr>dir_cache := []\<rparr>"

text \<open>
  The loop of \<^verbatim>\<open>cache_get\<close>: the first entry whose path compares equal decides. An
  expired one is unlinked from the list and the result is the null pointer.
\<close>

fun cache_get_loop ::
  "int \<Rightarrow> int \<Rightarrow> string \<Rightarrow> cache_entry_t list \<Rightarrow> cache_entry_t option \<times> cache_entry_t list" where
  "cache_get_loop now timeout p [] = (None, [])"
| "cache_get_loop now timeout p (current # rest) =
     (if strcmp (path current) p = 0 then
        (if now - timestamp current > timeout then (None, rest)
         else (Some current, current # rest))
      else (case cache_get_loop now timeout p rest of
              (r, rest') \<Rightarrow> (r, current # rest')))"

text \<open>\<open>now\<close> is the value of \<^verbatim>\<open>time(NULL)\<close> at the call.\<close>

definition cache_get ::
  "cftpfs_context_t \<Rightarrow> int \<Rightarrow> string \<Rightarrow> cache_entry_t option \<times> cftpfs_context_t" where
  "cache_get ctx now p =
     (let timeout = (if cache_timeout ctx > 0 then cache_timeout ctx else CACHE_TIMEOUT_DEFAULT)
      in case cache_get_loop now timeout p (dir_cache ctx) of
           (r, c) \<Rightarrow> (r, ctx\<lparr>dir_cache := c\<rparr>))"

text \<open>The first loop of \<^verbatim>\<open>cache_put\<close>: unlink the first entry of that path, then stop.\<close>

fun cache_put_remove :: "string \<Rightarrow> cache_entry_t list \<Rightarrow> cache_entry_t list" where
  "cache_put_remove p [] = []"
| "cache_put_remove p (current # rest) =
     (if strcmp (path current) p = 0 then rest else current # cache_put_remove p rest)"

text \<open>
  \<open>xs\<close> are the \<^verbatim>\<open>count\<close> items of the array handed over; the new entry goes to the
  head of the list. Allocation is taken to succeed.
\<close>

definition cache_put ::
  "cftpfs_context_t \<Rightarrow> int \<Rightarrow> string \<Rightarrow> ftp_item_t list \<Rightarrow> cftpfs_context_t" where
  "cache_put ctx now p xs =
     (let entry = \<lparr>path = strncpy p (MAX_PATH_LEN - 1),
                   items = xs,
                   item_count = int (length xs),
                   timestamp = now\<rparr>
      in ctx\<lparr>dir_cache := entry # cache_put_remove p (dir_cache ctx)\<rparr>)"

fun cache_invalidate_loop :: "string \<Rightarrow> cache_entry_t list \<Rightarrow> cache_entry_t list" where
  "cache_invalidate_loop p [] = []"
| "cache_invalidate_loop p (current # rest) =
     (if strcmp (path current) p = 0 \<or> strncmp (path current) p (length p) = 0
      then cache_invalidate_loop p rest
      else current # cache_invalidate_loop p rest)"

definition cache_invalidate :: "cftpfs_context_t \<Rightarrow> string \<Rightarrow> cftpfs_context_t" where
  "cache_invalidate ctx p = ctx\<lparr>dir_cache := cache_invalidate_loop p (dir_cache ctx)\<rparr>"

section \<open>Listing parser (\<^verbatim>\<open>parser.c\<close>)\<close>

fun skip_spaces :: "string \<Rightarrow> string" where
  "skip_spaces [] = []"
| "skip_spaces (c # cs) = (if isspace c then skip_spaces cs else c # cs)"

text \<open>The loop \<^verbatim>\<open>while (*p && !isspace(*p)) p++\<close>, written out at each field.\<close>

fun skip_nonspace :: "string \<Rightarrow> string" where
  "skip_nonspace [] = []"
| "skip_nonspace (c # cs) = (if \<not> isspace c then skip_nonspace cs else c # cs)"

text \<open>
  The digit loops \<^verbatim>\<open>while (*p && isdigit(*p)) { v = v * 10 + (*p - '0'); p++; }\<close>:
  the accumulated value and the rest of the line.
\<close>

fun scan_digits :: "'a::len word \<Rightarrow> string \<Rightarrow> 'a word \<times> string" where
  "scan_digits v [] = (v, [])"
| "scan_digits v (c # cs) =
     (if isdigit c then scan_digits (v * 10 + (of_nat (of_char c) - 48)) cs
      else (v, c # cs))"

definition months :: "string list" where
  "months = [''Jan'', ''Feb'', ''Mar'', ''Apr'', ''May'', ''Jun'',
             ''Jul'', ''Aug'', ''Sep'', ''Oct'', ''Nov'', ''Dec'']"

fun parse_month_loop :: "string \<Rightarrow> int \<Rightarrow> string list \<Rightarrow> int" where
  "parse_month_loop month_str i [] = - 1"
| "parse_month_loop month_str i (m # ms) =
     (if strncasecmp month_str m 3 = 0 then i else parse_month_loop month_str (i + 1) ms)"

definition parse_month :: "string \<Rightarrow> int" where
  "parse_month month_str = parse_month_loop month_str 0 months"

text \<open>Mode bits of \<^verbatim>\<open><sys/stat.h>\<close>.\<close>

definition S_IFDIR :: "32 word" where "S_IFDIR = 0x4000"
definition S_IFREG :: "32 word" where "S_IFREG = 0x8000"
definition S_IFLNK :: "32 word" where "S_IFLNK = 0xA000"

text \<open>
  \<open>cur_year\<close> is \<^verbatim>\<open>localtime(time(NULL))->tm_year + 1900\<close> and \<open>mktime\<close> the C
  library's conversion of a local broken-down time; \<open>None\<close> is the return value -1.
\<close>

definition parse_unix_listing ::
  "32 word \<Rightarrow> (tm \<Rightarrow> int) \<Rightarrow> string \<Rightarrow> ftp_item_t option" where
  "parse_unix_listing cur_year mktime line =
     (if length line < 10 then None
      else if hd line \<noteq> CHR ''d'' \<and> hd line \<noteq> CHR ''-'' \<and> hd line \<noteq> CHR ''l'' then None
      else
        let ty = (if hd line = CHR ''d'' then FTP_TYPE_DIR
                  else if hd line = CHR ''-'' then FTP_TYPE_FILE else FTP_TYPE_LINK);
            md = (if hd line = CHR ''d'' then S_IFDIR OR 0x1ED
                  else if hd line = CHR ''-'' then S_IFREG OR 0x1A4 else S_IFLNK OR 0x1FF);
            p1 = skip_spaces (skip_nonspace (tl line));
            p2 = skip_spaces (skip_nonspace p1);
            p3 = skip_spaces (skip_nonspace p2);
            p4 = skip_spaces (skip_nonspace p3);
            (sz, p5) = scan_digits 0 p4;
            p6 = skip_spaces p5
        in if length p6 < 3 then None
           else
             let month = parse_month (strncpy p6 3)
             in if month < 0 then None
                else
                  let p7 = skip_spaces (drop 3 p6);
                      (day, p8) = scan_digits 0 p7;
                      p9 = skip_spaces p8;
                      (year, hour, minute, p10) =
                        (if strchr p9 CHR '':'' then
                           let (h, q1) = scan_digits 0 p9;
                               q2 = (if q1 \<noteq> [] \<and> hd q1 = CHR '':'' then tl q1 else q1);
                               (m, q3) = scan_digits 0 q2
                           in (cur_year, h, m, q3)
                         else
                           let (y, q1) = scan_digits 0 p9
                           in (y, 0, 0, q1));
                      p11 = skip_spaces p10
                  in if p11 = [] then None
                     else
                       let nm = (case strstr p11 '' -> '' of
                                   Some arrow \<Rightarrow> take arrow p11
                                 | None \<Rightarrow> p11)
                       in Some \<lparr>name = strncpy nm (MAX_PATH_LEN - 1),
                                item_type = ty,
                                item_size = sz,
                                mtime = mktime \<lparr>tm_year = year - 1900,
                                                tm_mon = word_of_int month,
                                                tm_mday = day,
                                                tm_hour = hour,
                                                tm_min = minute,
                                                tm_sec = 0\<rparr>,
                                mode = md\<rparr>)"

text \<open>
  The conversion \<^verbatim>\<open>%2d\<close> of \<^verbatim>\<open>sscanf\<close>: white space is skipped, a sign counts in
  the width of two, and at least one digit must follow. \<open>None\<close> is a failed conversion,
  otherwise the value and the unread input.
\<close>

definition scan_2d :: "string \<Rightarrow> (32 word \<times> string) option" where
  "scan_2d s =
     (case skip_spaces s of
        [] \<Rightarrow> None
      | c # cs \<Rightarrow>
          if c = CHR ''-'' \<or> c = CHR ''+'' then
            (case cs of
               [] \<Rightarrow> None
             | d # ds \<Rightarrow>
                 if isdigit d then
                   Some (if c = CHR ''-'' then - (of_nat (of_char d) - 48)
                         else of_nat (of_char d) - 48, ds)
                 else None)
          else if isdigit c then
            (case cs of
               [] \<Rightarrow> Some (of_nat (of_char c) - 48, [])
             | d # ds \<Rightarrow>
                 if isdigit d
                 then Some ((of_nat (of_char c) - 48) * 10 + (of_nat (of_char d) - 48), ds)
                 else Some (of_nat (of_char c) - 48, cs))
          else None)"

text \<open>
  \<^verbatim>\<open>sscanf(line, "%2d-%2d-%2d", ...)\<close>: the values assigned, in order; the call
  returns their number (or \<^verbatim>\<open>EOF\<close> when there is none).
\<close>

definition sscanf_date :: "string \<Rightarrow> 32 word list" where
  "sscanf_date line =
     (case scan_2d line of
        None \<Rightarrow> []
      | Some (month, r1) \<Rightarrow>
          if r1 = [] \<or> hd r1 \<noteq> CHR ''-'' then [month]
          else (case scan_2d (tl r1) of
                  None \<Rightarrow> [month]
                | Some (day, r2) \<Rightarrow>
                    if r2 = [] \<or> hd r2 \<noteq> CHR ''-'' then [month, day]
                    else (case scan_2d (tl r2) of
                            None \<Rightarrow> [month, day]
                          | Some (year, r3) \<Rightarrow> [month, day, year])))"

text \<open>
  \<^verbatim>\<open>sscanf(p, "%2d:%2d%2s", &hour, &min, ampm)\<close>: the integers assigned and the
  contents of \<^verbatim>\<open>ampm\<close> afterwards, which stays empty unless \<^verbatim>\<open>%2s\<close> converts.
\<close>

definition sscanf_time :: "string \<Rightarrow> 32 word list \<times> string" where
  "sscanf_time p =
     (case scan_2d p of
        None \<Rightarrow> ([], [])
      | Some (hour, r1) \<Rightarrow>
          if r1 = [] \<or> hd r1 \<noteq> CHR '':'' then ([hour], [])
          else (case scan_2d (tl r1) of
                  None \<Rightarrow> ([hour], [])
                | Some (minute, r2) \<Rightarrow>
                    ([hour, minute], take 2 (takeWhile (\<lambda>c. \<not> isspace c) (skip_spaces r2)))))"

text \<open>
  \<open>hour0\<close> and \<open>min0\<close> are the indeterminate values of the uninitialised locals
  \<^verbatim>\<open>hour\<close> and \<^verbatim>\<open>min\<close>, which reach the timestamp when \<^verbatim>\<open>sscanf\<close> assigns fewer
  than two integers. The result carries the broken-down time next to the item.
\<close>

definition parse_windows_fields ::
  "32 word \<Rightarrow> 32 word \<Rightarrow> string \<Rightarrow> (ftp_item_t \<times> tm) option" where
  "parse_windows_fields hour0 min0 line =
     (if length line < 20 then None
      else
        case sscanf_date line of
          [month, day, y] \<Rightarrow>
            let year = (if y <s 50 then y + 2000 else if y <s 100 then y + 1900 else y);
                p1 = skip_spaces (drop 8 line);
                (hour, minute) =
                  (case sscanf_time p1 of
                     ([h, m], ampm) \<Rightarrow>
                       ((if strcasecmp ampm ''PM'' = 0 \<and> h \<noteq> 12 then h + 12
                         else if strcasecmp ampm ''AM'' = 0 \<and> h = 12 then 0
                         else h), m)
                   | ([h], ampm) \<Rightarrow> (h, min0)
                   | _ \<Rightarrow> (hour0, min0));
                p2 = skip_spaces (skip_nonspace p1);
                (ty, md, sz, p3) =
                  (if strncasecmp p2 ''<DIR>'' 5 = 0
                   then (FTP_TYPE_DIR, S_IFDIR OR 0x1ED, 0, drop 5 p2)
                   else
                     let (s, q) = scan_digits 0 p2
                     in (FTP_TYPE_FILE, S_IFREG OR 0x1A4, s, q));
                p4 = skip_spaces p3
            in if p4 = [] then None
               else
                 let nm = rev (skip_spaces (rev (strncpy p4 (MAX_PATH_LEN - 1))));
                     t = \<lparr>tm_year = year - 1900,
                          tm_mon = month - 1,
                          tm_mday = day,
                          tm_hour = hour,
                          tm_min = minute,
                          tm_sec = 0\<rparr>
                 in Some (\<lparr>name = nm, item_type = ty, item_size = sz,
                           mtime = 0, mode = md\<rparr>, t)
        | _ \<Rightarrow> None)"

definition parse_windows_listing ::
  "(tm \<Rightarrow> int) \<Rightarrow> 32 word \<Rightarrow> 32 word \<Rightarrow> string \<Rightarrow> ftp_item_t option" where
  "parse_windows_listing mktime hour0 min0 line =
     (case parse_windows_fields hour0 min0 line of
        None \<Rightarrow> None
      | Some (item, t) \<Rightarrow> Some (item\<lparr>mtime := mktime t\<rparr>))"

definition parse_ftp_listing ::
  "32 word \<Rightarrow> (tm \<Rightarrow> int) \<Rightarrow> 32 word \<Rightarrow> 32 word \<Rightarrow> string \<Rightarrow> ftp_item_t option" where
  "parse_ftp_listing cur_year mktime hour0 min0 line =
     (let p = skip_spaces line
      in if p = [] then None
         else if hd p = CHR ''d'' \<or> hd p = CHR ''-'' \<or> hd p = CHR ''l''
              then parse_unix_listing cur_year mktime p
         else if isdigit (hd p) then parse_windows_listing mktime hour0 min0 p
         else None)"

section \<open>Splitting and parsing a listing (\<^verbatim>\<open>ftp_list_dir\<close>)\<close>

text \<open>
  One call of \<^verbatim>\<open>strtok\<close> on the saved position \<open>s\<close>: leading delimiters are
  skipped; at the end of the input the result is the null pointer, otherwise the token
  and the position saved for the next call.
\<close>

definition strtok :: "string \<Rightarrow> string \<Rightarrow> (string \<times> string) option" where
  "strtok s delim =
     (let s1 = dropWhile (\<lambda>c. c \<in> set delim) s
      in if s1 = [] then None
         else Some (takeWhile (\<lambda>c. c \<notin> set delim) s1,
                    drop 1 (dropWhile (\<lambda>c. c \<notin> set delim) s1)))"

text \<open>First pass: the number of lines.\<close>

function count_lines :: "string \<Rightarrow> int" where
  "count_lines s =
     (case strtok s [CHR 0x0A] of
        None \<Rightarrow> 0
      | Some (line, rest) \<Rightarrow> 1 + count_lines rest)"
  by pat_completeness auto
termination
proof (relation "measure length")
  show "wf (measure length)" by simp
next
  fix s :: string and x2 line rest
  assume tok: "strtok s [CHR 0x0A] = Some x2" and x2: "(line, rest) = x2"
  let ?s1 = "dropWhile (\<lambda>c. c \<in> set [CHR 0x0A]) s"
  from tok x2 have ne: "?s1 \<noteq> []"
    and rest: "rest = drop 1 (dropWhile (\<lambda>c. c \<notin> set [CHR 0x0A]) ?s1)"
    by (auto simp: strtok_def Let_def split: if_splits)
  have "length rest < length ?s1"
    using ne length_dropWhile_le [of "\<lambda>c. c \<notin> set [CHR 0x0A]" ?s1]
    by (cases ?s1) (auto simp: rest)
  also have "length ?s1 \<le> length s"
    by (rule length_dropWhile_le)
  finally show "(rest, s) \<in> measure length" by simp
qed

text \<open>
  Second pass: \<open>idx\<close> counts the items filled so far and a line is looked at only
  while \<open>idx < count\<close>. The result is the filled prefix of the array and the final
  \<open>idx\<close>.
\<close>

function parse_lines ::
  "(string \<Rightarrow> ftp_item_t option) \<Rightarrow> int \<Rightarrow> int \<Rightarrow> string \<Rightarrow> ftp_item_t list \<times> int" where
  "parse_lines parse idx count s =
     (case strtok s [CHR 0x0A] of
        None \<Rightarrow> ([], idx)
      | Some (line, rest) \<Rightarrow>
          if idx < count then
            (case parse line of
               Some item \<Rightarrow>
                 (case parse_lines parse (idx + 1) count rest of
                    (its, n) \<Rightarrow> (item # its, n))
             | None \<Rightarrow> parse_lines parse idx count rest)
          else ([], idx))"
  by pat_completeness auto
termination
proof (relation "measure (\<lambda>(parse, idx, count, s). length s)")
  show "wf (measure (\<lambda>(parse :: string \<Rightarrow> ftp_item_t option, idx :: int, count :: int, s :: string). length s))"
    by simp
next
  fix parse :: "string \<Rightarrow> ftp_item_t option" and idx count :: int
    and s :: string and x2 line rest
  assume tok: "strtok s [CHR 0x0A] = Some x2" and x2: "(line, rest) = x2"
  let ?s1 = "dropWhile (\<lambda>c. c \<in> set [CHR 0x0A]) s"
  from tok x2 have ne: "?s1 \<noteq> []"
    and rest: "rest = drop 1 (dropWhile (\<lambda>c. c \<notin> set [CHR 0x0A]) ?s1)"
    by (auto simp: strtok_def Let_def split: if_splits)
  have "length rest < length ?s1"
    using ne length_dropWhile_le [of "\<lambda>c. c \<notin> set [CHR 0x0A]" ?s1]
    by (cases ?s1) (auto simp: rest)
  also have "length ?s1 \<le> length s"
    by (rule length_dropWhile_le)
  finally have lt: "length rest < length s" .
  show "((parse, idx + 1, count, rest), (parse, idx, count, s))
          \<in> measure (\<lambda>(parse, idx, count, s). length s)"
    using lt by simp
  show "((parse, idx, count, rest), (parse, idx, count, s))
          \<in> measure (\<lambda>(parse, idx, count, s). length s)"
    using lt by simp
qed

text \<open>
  \<^verbatim>\<open>ftp_list_dir\<close> from the return of \<^verbatim>\<open>curl_easy_perform\<close> on: \<open>res\<close> is the body
  received when the transfer succeeded and \<open>None\<close> when it failed. The result is the
  return value, the items and \<^verbatim>\<open>*count\<close>. Allocation is taken to succeed, for an
  array of no items too.
\<close>

definition ftp_list_dir ::
  "32 word \<Rightarrow> (tm \<Rightarrow> int) \<Rightarrow> 32 word \<Rightarrow> 32 word \<Rightarrow> string option
     \<Rightarrow> int \<times> ftp_item_t list \<times> int" where
  "ftp_list_dir cur_year mktime hour0 min0 res =
     (case res of
        None \<Rightarrow> (- 1, [], 0)
      | Some body \<Rightarrow>
          let count = count_lines body
          in case parse_lines (parse_ftp_listing cur_year mktime hour0 min0) 0 count body of
               (its, idx) \<Rightarrow> (0, its, idx))"

section \<open>Handles (\<^verbatim>\<open>handles.c\<close>)\<close>

text \<open>
  \<open>spill\<close> is the name \<^verbatim>\<open>snprintf\<close> builds for the temporary file, \<open>None\<close> when
  the allocation or the creation of the file fails.
\<close>

definition handle_create :: "string \<Rightarrow> 32 word \<Rightarrow> string option \<Rightarrow> file_handle_t option" where
  "handle_create p fl spill =
     (case spill of
        None \<Rightarrow> None
      | Some tp \<Rightarrow>
          Some \<lparr>fd = - 1, fh_path = strncpy p (MAX_PATH_LEN - 1), temp_path = tp,
                flags = fl, dirty = False, is_new = False\<rparr>)"

definition handle_release :: "cftpfs_context_t \<Rightarrow> nat \<Rightarrow> cftpfs_context_t" where
  "handle_release ctx fh_id =
     (if fh_id \<ge> MAX_HANDLES then ctx
      else case file_handles ctx fh_id of
             None \<Rightarrow> ctx
           | Some fh \<Rightarrow>
               ctx\<lparr>file_handles := (file_handles ctx)(fh_id := None),
                   unlinked := (if length (temp_path fh) > 0
                                then temp_path fh # unlinked ctx else unlinked ctx)\<rparr>)"

section \<open>Filesystem operations (\<^verbatim>\<open>main.c\<close>)\<close>

text \<open>Values of \<^verbatim>\<open><fcntl.h>\<close> and \<^verbatim>\<open><errno.h>\<close> on Linux.\<close>

definition O_ACCMODE :: "32 word" where "O_ACCMODE = 3"
definition O_RDONLY :: "32 word" where "O_RDONLY = 0"
definition O_WRONLY :: "32 word" where "O_WRONLY = 1"
definition O_RDWR :: "32 word" where "O_RDWR = 2"
definition O_CREAT :: "32 word" where "O_CREAT = 0x40"
definition O_TRUNC :: "32 word" where "O_TRUNC = 0x200"

definition ENOENT :: int where "ENOENT = 2"
definition EIO :: int where "EIO = 5"
definition EMFILE :: int where "EMFILE = 24"

text \<open>The loop over the slots \<open>i, i + 1, \<dots>\<close> below \<^verbatim>\<open>MAX_HANDLES\<close> in \<^verbatim>\<open>cftpfs_open\<close>.\<close>

function find_free_slot :: "(nat \<Rightarrow> file_handle_t option) \<Rightarrow> nat \<Rightarrow> nat option" where
  "find_free_slot hs i =
     (if i < MAX_HANDLES
      then (if hs i = None then Some i else find_free_slot hs (Suc i))
      else None)"
  by pat_completeness auto
termination
  by (relation "measure (\<lambda>(hs, i). MAX_HANDLES - i)") auto

text \<open>
  The result is the return value, the value stored in \<^verbatim>\<open>fi->fh\<close> (\<open>None\<close> when the
  field is left as it was) and the context.
\<close>

definition cftpfs_open ::
  "cftpfs_context_t \<Rightarrow> string \<Rightarrow> 32 word \<Rightarrow> string option \<Rightarrow> int \<times> nat option \<times> cftpfs_context_t" where
  "cftpfs_open ctx p fl spill =
     (if fl AND O_ACCMODE = O_RDONLY then (0, None, ctx)
      else
        case handle_create p fl spill of
          None \<Rightarrow> (- EMFILE, None, ctx)
        | Some fh \<Rightarrow>
            (case find_free_slot (file_handles ctx) 0 of
               None \<Rightarrow>
                 (- EMFILE, None,
                  ctx\<lparr>unlinked := (if length (temp_path fh) > 0
                                   then temp_path fh # unlinked ctx else unlinked ctx)\<rparr>)
             | Some handle_id \<Rightarrow>
                 if \<not> (fl AND O_CREAT \<noteq> 0) \<or> fl AND O_TRUNC \<noteq> 0 then
                   (0, Some handle_id,
                    ctx\<lparr>file_handles := (file_handles ctx)(handle_id \<mapsto> fh),
                        ftp_calls := Ftp_download p (temp_path fh) # ftp_calls ctx\<rparr>)
                 else
                   (0, Some handle_id,
                    ctx\<lparr>file_handles := (file_handles ctx)(handle_id \<mapsto> fh\<lparr>is_new := True\<rparr>)\<rparr>)))"

definition cftpfs_create ::
  "cftpfs_context_t \<Rightarrow> string \<Rightarrow> 32 word \<Rightarrow> string option \<Rightarrow> int \<times> nat option \<times> cftpfs_context_t" where
  "cftpfs_create ctx p fl spill = cftpfs_open ctx p fl spill"

text \<open>
  The parent of a path as \<^verbatim>\<open>release\<close>, \<^verbatim>\<open>unlink\<close>, \<^verbatim>\<open>mkdir\<close> and \<^verbatim>\<open>rmdir\<close>
  compute it: the path is cut at its last slash when there is one and it is not the
  first byte; otherwise \<^verbatim>\<open>cache_invalidate\<close> is not called.
\<close>

definition invalidate_parent :: "cftpfs_context_t \<Rightarrow> string \<Rightarrow> cftpfs_context_t" where
  "invalidate_parent ctx p =
     (case strrchr p CHR ''/'' of
        None \<Rightarrow> ctx
      | Some last_slash \<Rightarrow>
          if last_slash \<noteq> 0 then cache_invalidate ctx (take last_slash p) else ctx)"

definition cftpfs_release :: "cftpfs_context_t \<Rightarrow> string \<Rightarrow> nat \<Rightarrow> int \<times> cftpfs_context_t" where
  "cftpfs_release ctx p fh_id =
     (if fh_id \<ge> MAX_HANDLES then (0, ctx)
      else case file_handles ctx fh_id of
             None \<Rightarrow> (0, ctx)
           | Some fh \<Rightarrow>
               let ctx1 = (if dirty fh \<or> is_new fh
                           then invalidate_parent
                                  (ctx\<lparr>ftp_calls := Ftp_upload (temp_path fh) p # ftp_calls ctx\<rparr>) p
                           else ctx)
               in (0, handle_release ctx1 fh_id))"

text \<open>\<open>ret\<close> is the value \<^verbatim>\<open>ftp_rename\<close> returns.\<close>

definition cftpfs_rename ::
  "cftpfs_context_t \<Rightarrow> string \<Rightarrow> string \<Rightarrow> int \<Rightarrow> int \<times> cftpfs_context_t" where
  "cftpfs_rename ctx from to ret =
     (let ctx1 = ctx\<lparr>ftp_calls := Ftp_rename from to # ftp_calls ctx\<rparr>
      in if ret = 0 then (ret, cache_invalidate ctx1 ''/'') else (ret, ctx1))"

text \<open>The fields of \<^verbatim>\<open>struct stat\<close> taken from the listing.\<close>

record stat =
  st_mode :: "32 word"
  st_size :: "64 word"
  st_mtime :: int
  st_nlink :: nat

fun getattr_find :: "string \<Rightarrow> ftp_item_t list \<Rightarrow> ftp_item_t option" where
  "getattr_find basename [] = None"
| "getattr_find basename (item # rest) =
     (if strcmp (name item) basename = 0 then Some item else getattr_find basename rest)"

text \<open>
  \<open>now\<close> and \<open>now2\<close> are the clock at \<^verbatim>\<open>cache_get\<close> and at \<^verbatim>\<open>cache_put\<close>;
  \<open>listing\<close> is what \<^verbatim>\<open>ftp_list_dir\<close> returns if it is called: the return
  value, the items and their number.
\<close>

definition cftpfs_getattr ::
  "cftpfs_context_t \<Rightarrow> int \<Rightarrow> int \<Rightarrow> string \<Rightarrow> int \<times> ftp_item_t list \<times> int
     \<Rightarrow> int \<times> stat option \<times> cftpfs_context_t" where
  "cftpfs_getattr ctx now now2 p listing =
     (if strcmp p ''/'' = 0
      then (0, Some \<lparr>st_mode = S_IFDIR OR 0x1ED, st_size = 0, st_mtime = 0, st_nlink = 2\<rparr>, ctx)
      else
        case strrchr p CHR ''/'' of
          None \<Rightarrow> (- ENOENT, None, ctx)
        | Some slash \<Rightarrow>
            let parent_path = take slash p;
                basename = drop (Suc slash) p
            in if basename = [] then (- ENOENT, None, ctx)
               else
                 let (its, ctx2) =
                       (case cache_get ctx now parent_path of
                          (Some cached, ctx1) \<Rightarrow>
                            ((if item_count cached > 0 then items cached else []), ctx1)
                        | (None, ctx1) \<Rightarrow>
                            let ctx1' = ctx1\<lparr>ftp_calls := Ftp_list_dir parent_path # ftp_calls ctx1\<rparr>
                            in (case listing of
                                  (ret, xs, count) \<Rightarrow>
                                    if ret = 0 then (xs, cache_put ctx1' now2 parent_path xs)
                                    else ([], ctx1')))
                 in (case getattr_find basename its of
                       Some item \<Rightarrow>
                         (0, Some \<lparr>st_mode = mode item, st_size = item_size item,
                                   st_mtime = mtime item,
                                   st_nlink = (if item_type item = FTP_TYPE_DIR then 2 else 1)\<rparr>,
                          ctx2)
                     | None \<Rightarrow> (- ENOENT, None, ctx2)))"

text \<open>The names handed to the filler, and the context.\<close>

definition cftpfs_readdir ::
  "cftpfs_context_t \<Rightarrow> int \<Rightarrow> int \<Rightarrow> string \<Rightarrow> int \<times> ftp_item_t list \<times> int
     \<Rightarrow> int \<times> string list \<times> cftpfs_context_t" where
  "cftpfs_readdir ctx now now2 p listing =
     (case cache_get ctx now p of
        (Some cached, ctx1) \<Rightarrow>
          (0, ''.'' # ''..'' # map name (if item_count cached > 0 then items cached else []), ctx1)
      | (None, ctx1) \<Rightarrow>
          let ctx1' = ctx1\<lparr>ftp_calls := Ftp_list_dir p # ftp_calls ctx1\<rparr>
          in (case listing of
                (ret, xs, count) \<Rightarrow>
                  if ret = 0 then (0, ''.'' # ''..'' # map name xs, cache_put ctx1' now2 p xs)
                  else (- EIO, [''.'', ''..''], ctx1')))"

text \<open>
  The context as \<^verbatim>\<open>main\<close> sets it up before mounting: zeroed by \<^verbatim>\<open>calloc\<close>, the
  timeout taken from the options, the cache initialised.
\<close>

definition initial_context :: "int \<Rightarrow> cftpfs_context_t" where
  "initial_context t =
     cache_init \<lparr>cache_timeout = t, dir_cache = [], file_handles = (\<lambda>i. None),
                 ftp_calls = [], unlinked = []\<rparr>"

section \<open>Reference notions for the statements\<close>

text \<open>
  The lines of a response body as the specification speaks of them: the non-empty
  maximal runs of bytes other than the line feed, in order. \<open>cur\<close> is the run read so
  far.
\<close>

fun spec_lines_from :: "string \<Rightarrow> string \<Rightarrow> string list" where
  "spec_lines_from cur [] = (if cur = [] then [] else [cur])"
| "spec_lines_from cur (c # cs) =
     (if c = CHR 0x0A
      then (if cur = [] then spec_lines_from [] cs else cur # spec_lines_from [] cs)
      else spec_lines_from (cur @ [c]) cs)"

definition spec_lines :: "string \<Rightarrow> string list" where
  "spec_lines body = spec_lines_from [] body"

text \<open>The number a string of decimal digits denotes.\<close>

definition spec_decimal :: "string \<Rightarrow> nat" where
  "spec_decimal ds = foldl (\<lambda>v c. v * 10 + (of_char c - 48)) 0 ds"

text \<open>A conversion to put in the place of \<^verbatim>\<open>mktime\<close> where a closed term is evaluated.\<close>

definition mktime_const :: "tm \<Rightarrow> int" where
  "mktime_const t = 0"

text \<open>
  The pieces a listing line is made of: a run of white space, a field without white
  space, and a run of decimal digits, none of them empty.
\<close>

definition spec_blank :: "string \<Rightarrow> bool" where
  "spec_blank sp = (sp \<noteq> [] \<and> list_all isspace sp)"

definition spec_word :: "string \<Rightarrow> bool" where
  "spec_word w = (w \<noteq> [] \<and> list_all (\<lambda>c. \<not> isspace c) w)"

definition spec_digits :: "string \<Rightarrow> bool" where
  "spec_digits ds = (ds \<noteq> [] \<and> list_all isdigit ds)"

text \<open>A path of \<^verbatim>\<open>MAX_PATH_LEN\<close> bytes, one more than the path buffers hold.\<close>

definition long_path :: string where
  "long_path = CHR ''/'' # replicate 4095 CHR ''a''"

text \<open>A file entry of two bytes, for the scenarios evaluated below.\<close>

definition file_item :: "string \<Rightarrow> ftp_item_t" where
  "file_item n = \<lparr>name = n, item_type = FTP_TYPE_FILE, item_size = 2, mtime = 0,
                   mode = S_IFREG OR 0x1A4\<rparr>"

text \<open>
  Creating a file in the root directory: the root is listed (and found empty) at time
  100, then \<^verbatim>\<open>/new.txt\<close> is opened with \<^verbatim>\<open>O_WRONLY | O_CREAT\<close> and released.
\<close>

definition root_listed :: cftpfs_context_t where
  "root_listed = snd (snd (cftpfs_readdir (initial_context 30) 100 100 ''/'' (0, [], 0)))"

definition root_file_opened :: cftpfs_context_t where
  "root_file_opened =
     snd (snd (cftpfs_open root_listed ''/new.txt'' (O_WRONLY OR O_CREAT)
                 (Some ''/tmp/cftpfs_1_1/fh_1_1_0x1'')))"

definition root_file_released :: cftpfs_context_t where
  "root_file_released = snd (cftpfs_release root_file_opened ''/new.txt'' 0)"

text \<open>
  Renaming a file of the root directory: \<^verbatim>\<open>getattr\<close> on \<^verbatim>\<open>/a\<close> at time 100 lists
  the root, which holds \<^verbatim>\<open>a\<close>; then \<^verbatim>\<open>/a\<close> is renamed to \<^verbatim>\<open>/b\<close>.
\<close>

definition root_attr_cached :: cftpfs_context_t where
  "root_attr_cached =
     snd (snd (cftpfs_getattr (initial_context 30) 100 100 ''/a'' (0, [file_item ''a''], 1)))"

definition root_file_renamed :: cftpfs_context_t where
  "root_file_renamed = snd (cftpfs_rename root_attr_cached ''/a'' ''/b'' 0)"

section \<open>Properties of the string functions\<close>

lemma strcmp_eq_0: "strcmp a b = 0 \<longleftrightarrow> a = b"
  by (induction a b rule: strcmp.induct) auto

lemma strncmp_length_eq_0: "strncmp a b (length b) = 0 \<longleftrightarrow> prefix b a"
proof (induction b arbitrary: a)
  case Nil
  show ?case by simp
next
  case (Cons y ys)
  show ?case
    by (cases a) (use Cons.IH in auto)
qed

section \<open>Properties of the cache\<close>

lemma cache_invalidate_loop_filter:
  "cache_invalidate_loop p c = filter (\<lambda>e. \<not> prefix p (path e)) c"
  by (induction c) (auto simp: strcmp_eq_0 strncmp_length_eq_0)

lemma cache_get_loop_absent:
  "p \<notin> path ` set c \<Longrightarrow> cache_get_loop now T p c = (None, c)"
  by (induction c) (auto simp: strcmp_eq_0)

lemma cache_put_remove_subset: "set (cache_put_remove p c) \<subseteq> set c"
  by (induction c) auto

lemma cache_put_remove_absent:
  "distinct (map path c) \<Longrightarrow> p \<notin> path ` set (cache_put_remove p c)"
proof (induction c)
  case Nil
  show ?case by simp
next
  case (Cons e c)
  show ?case
  proof (cases "path e = p")
    case True
    with Cons.prems show ?thesis by (auto simp: strcmp_eq_0)
  next
    case False
    with Cons show ?thesis by (auto simp: strcmp_eq_0)
  qed
qed

lemma cache_put_remove_distinct:
  "distinct (map path c) \<Longrightarrow> distinct (map path (cache_put_remove p c))"
proof (induction c)
  case Nil
  show ?case by simp
next
  case (Cons e c)
  have "path e \<notin> path ` set (cache_put_remove p c)"
    using Cons.prems cache_put_remove_subset [of p c] by auto
  with Cons show ?case by (auto simp: strcmp_eq_0)
qed

text \<open>
  No two entries of the cache have the same path: this holds at the start and every
  operation keeps it, for paths that fit the buffer.
\<close>

lemma distinct_initial_context: "distinct (map path (dir_cache (initial_context t)))"
  by (simp add: initial_context_def cache_init_def)

lemma distinct_cache_put:
  assumes "length p < MAX_PATH_LEN" and "distinct (map path (dir_cache ctx))"
  shows "distinct (map path (dir_cache (cache_put ctx t p xs)))"
proof -
  have "strncpy p (MAX_PATH_LEN - 1) = p"
    using assms(1) by (simp add: strncpy_def)
  then show ?thesis
    using cache_put_remove_absent [OF assms(2), of p] cache_put_remove_distinct [OF assms(2), of p]
    by (simp add: cache_put_def Let_def del: One_nat_def)
qed

lemma cache_get_loop_sublist:
  "set (snd (cache_get_loop now T p c)) \<subseteq> set c
   \<and> (distinct (map path c) \<longrightarrow> distinct (map path (snd (cache_get_loop now T p c))))"
  by (induction c) (auto split: prod.splits)

lemma dir_cache_cache_get:
  "dir_cache (snd (cache_get ctx now p))
     = snd (cache_get_loop now
              (if cache_timeout ctx > 0 then cache_timeout ctx else CACHE_TIMEOUT_DEFAULT)
              p (dir_cache ctx))"
  by (simp add: cache_get_def Let_def split: prod.splits)

lemma distinct_cache_get:
  "distinct (map path (dir_cache ctx)) \<Longrightarrow> distinct (map path (dir_cache (snd (cache_get ctx now p))))"
  unfolding dir_cache_cache_get using cache_get_loop_sublist by blast

lemma distinct_cache_invalidate:
  "distinct (map path (dir_cache ctx)) \<Longrightarrow> distinct (map path (dir_cache (cache_invalidate ctx p)))"
  by (simp add: cache_invalidate_def cache_invalidate_loop_filter distinct_map_filter)

text \<open>
  C2. \<^verbatim>\<open>cache_invalidate\<close> with prefix \<open>p\<close> removes exactly the entries whose path
  equals \<open>p\<close> or has \<open>p\<close> as a prefix of its bytes; every other entry stays, in its
  place. After \<open>put\<close> of \<^verbatim>\<open>/a\<close>, \<^verbatim>\<open>/a/b\<close> and \<^verbatim>\<open>/ab\<close> on an empty cache,
  invalidating \<^verbatim>\<open>/a\<close> removes all three, the sibling \<^verbatim>\<open>/ab\<close> included.
\<close>

theorem cache_invalidate_prefix:
  "dir_cache (cache_invalidate ctx p)
     = filter (\<lambda>e. \<not> (path e = p \<or> prefix p (path e))) (dir_cache ctx)
   \<and> dir_cache (cache_invalidate
                  (cache_put (cache_put (cache_put (cache_init ctx) t1 ''/a'' xs) t2 ''/a/b'' ys)
                     t3 ''/ab'' zs) ''/a'') = []"
proof -
  have eq: "(\<lambda>e. \<not> (path e = p \<or> prefix p (path e))) = (\<lambda>e. \<not> prefix p (path e))"
    by auto
  have gen: "dir_cache (cache_invalidate ctx p)
     = filter (\<lambda>e. \<not> (path e = p \<or> prefix p (path e))) (dir_cache ctx)"
    unfolding eq by (simp add: cache_invalidate_def cache_invalidate_loop_filter)
  have ex: "dir_cache (cache_invalidate
                  (cache_put (cache_put (cache_put (cache_init ctx) t1 ''/a'' xs) t2 ''/a/b'' ys)
                     t3 ''/ab'' zs) ''/a'') = []"
    by (simp add: cache_invalidate_def cache_put_def cache_init_def strncpy_def
        MAX_PATH_LEN_def Let_def)
  from gen ex show ?thesis by simp
qed

theorem cache_invalidate_prefix_witness:
  "map path (dir_cache (cache_invalidate
      (cache_put (cache_put (cache_put (cache_put (initial_context 30) 1 ''/b'' []) 2 ''/a'' [])
         3 ''/a/b'' []) 4 ''/ab'' []) ''/a'')) = [''/b'']"
  using cache_invalidate_prefix [of
      "cache_put (cache_put (cache_put (cache_put (initial_context 30) 1 ''/b'' []) 2 ''/a'' [])
         3 ''/a/b'' []) 4 ''/ab'' []" "''/a''" 0 "[]" 0 "[]" 0 "[]"]
  by (simp add: cache_put_def initial_context_def cache_init_def strncpy_def
      MAX_PATH_LEN_def Let_def)

text \<open>
  C3, as amended. Let \<open>p\<close> be a path of at most \<^verbatim>\<open>MAX_PATH_LEN - 1\<close> = 4095 bytes, put
  with items \<open>xs\<close> at time \<open>t\<close>, and let \<open>T\<close> be the configured timeout (the default
  when the field is not positive). A \<open>get\<close> of \<open>p\<close> at time \<open>now\<close> returns the stored
  entry and leaves the cache as it is when \<open>now - t \<le> T\<close>; when \<open>now - t > T\<close> it
  returns the null pointer and unlinks that entry, and in a cache whose paths were
  distinct (as they are in every cache the operations build from paths that fit) no
  entry of path \<open>p\<close> remains and a later \<open>get\<close> misses. A \<open>get\<close> of a path that is not
  in the cache returns the null pointer and changes nothing.
\<close>

theorem cache_get_after_put:
  assumes len: "length p < MAX_PATH_LEN"
  shows
    "(let ctx1 = cache_put ctx t p xs;
          T = (if cache_timeout ctx > 0 then cache_timeout ctx else CACHE_TIMEOUT_DEFAULT);
          (r, ctx2) = cache_get ctx1 now p
      in hd (dir_cache ctx1) = \<lparr>path = p, items = xs, item_count = int (length xs), timestamp = t\<rparr>
         \<and> (now - t \<le> T \<longrightarrow> r = Some (hd (dir_cache ctx1)) \<and> ctx2 = ctx1)
         \<and> (now - t > T \<longrightarrow>
               r = None \<and> ctx2 = ctx1\<lparr>dir_cache := tl (dir_cache ctx1)\<rparr>
               \<and> (distinct (map path (dir_cache ctx)) \<longrightarrow>
                     p \<notin> path ` set (dir_cache ctx2)
                     \<and> fst (cache_get ctx2 now' p) = None)))
     \<and> (q \<notin> path ` set (dir_cache ctx) \<longrightarrow> cache_get ctx now q = (None, ctx))"
proof -
  have tk: "strncpy p (MAX_PATH_LEN - 1) = p"
    using len by (simp add: strncpy_def)
  have absent: "p \<notin> path ` set (cache_put_remove p (dir_cache ctx))"
    if "distinct (map path (dir_cache ctx))"
    using that by (rule cache_put_remove_absent)
  have miss: "cache_get_loop now' T' p (cache_put_remove p (dir_cache ctx))
                = (None, cache_put_remove p (dir_cache ctx))"
    if "distinct (map path (dir_cache ctx))" for T'
    using absent [OF that] by (rule cache_get_loop_absent)
  have first: "(let ctx1 = cache_put ctx t p xs;
          T = (if cache_timeout ctx > 0 then cache_timeout ctx else CACHE_TIMEOUT_DEFAULT);
          (r, ctx2) = cache_get ctx1 now p
      in hd (dir_cache ctx1) = \<lparr>path = p, items = xs, item_count = int (length xs), timestamp = t\<rparr>
         \<and> (now - t \<le> T \<longrightarrow> r = Some (hd (dir_cache ctx1)) \<and> ctx2 = ctx1)
         \<and> (now - t > T \<longrightarrow>
               r = None \<and> ctx2 = ctx1\<lparr>dir_cache := tl (dir_cache ctx1)\<rparr>
               \<and> (distinct (map path (dir_cache ctx)) \<longrightarrow>
                     p \<notin> path ` set (dir_cache ctx2)
                     \<and> fst (cache_get ctx2 now' p) = None)))"
    using absent miss
    by (simp add: cache_put_def cache_get_def Let_def tk strcmp_eq_0 del: One_nat_def)
  have second: "q \<notin> path ` set (dir_cache ctx) \<longrightarrow> cache_get ctx now q = (None, ctx)"
    by (simp add: cache_get_def cache_get_loop_absent)
  from first second show ?thesis by blast
qed

theorem cache_get_after_put_witness:
  "cache_get (cache_put (initial_context 30) 100 ''/d'' []) 130 ''/d''
     = (Some \<lparr>path = ''/d'', items = [], item_count = 0, timestamp = 100\<rparr>,
        cache_put (initial_context 30) 100 ''/d'' [])
   \<and> cache_get (cache_put (initial_context 30) 100 ''/d'' []) 131 ''/d''
     = (None, initial_context 30)
   \<and> cache_get (initial_context 30) 131 ''/e'' = (None, initial_context 30)"
  using cache_get_after_put [of "''/d''" "initial_context 30" 100 "[]" 130 0 "''/e''"]
    cache_get_after_put [of "''/d''" "initial_context 30" 100 "[]" 131 0 "''/e''"]
  by (simp add: MAX_PATH_LEN_def initial_context_def cache_init_def cache_put_def
      cache_get_def strncpy_def CACHE_TIMEOUT_DEFAULT_def Let_def)

text \<open>
  C3 as stated, for every path, fails at a path of 4096 bytes: \<^verbatim>\<open>cache_put\<close> stores the
  key cut to 4095 bytes, which \<^verbatim>\<open>strcmp\<close> in \<^verbatim>\<open>cache_get\<close> finds different from the
  path, so a \<open>get\<close> at the very time of the \<open>put\<close> misses.
\<close>

lemma length_long_path: "length long_path = MAX_PATH_LEN"
  by (simp add: long_path_def MAX_PATH_LEN_def)

theorem cache_get_after_put_counterexample:
  "fst (cache_get (cache_put (initial_context 30) 100 long_path []) 100 long_path) = None"
proof -
  have "length (strncpy long_path (MAX_PATH_LEN - 1)) \<noteq> length long_path"
    by (simp add: strncpy_def length_long_path MAX_PATH_LEN_def)
  then have ne: "strncpy long_path (MAX_PATH_LEN - 1) \<noteq> long_path"
    by metis
  show ?thesis
    using ne
    by (simp add: cache_get_def cache_put_def initial_context_def cache_init_def Let_def
        strcmp_eq_0 del: One_nat_def)
qed

section \<open>Properties of the parser and of the listing loop\<close>

lemma skip_spaces_dropWhile: "skip_spaces s = dropWhile isspace s"
  by (induction s) auto

text \<open>
  C6. The parser dispatches on the first byte that is not white space: from \<open>d\<close>,
  \<open>-\<close> or \<open>l\<close> on the line is parsed as Unix long format, from an ASCII digit on
  as Windows format, and with any other first byte it is rejected. A line that is empty
  or all white space is rejected.
\<close>

theorem parse_ftp_listing_dispatch:
  "((\<forall>x \<in> set ws. isspace x) \<and> \<not> isspace c \<longrightarrow>
      parse_ftp_listing cy mk h0 m0 (ws @ c # rest)
        = (if c = CHR ''d'' \<or> c = CHR ''-'' \<or> c = CHR ''l''
           then parse_unix_listing cy mk (c # rest)
           else if isdigit c then parse_windows_listing mk h0 m0 (c # rest)
           else None))
   \<and> ((\<forall>x \<in> set line. isspace x) \<longrightarrow> parse_ftp_listing cy mk h0 m0 line = None)"
proof -
  have a: "skip_spaces (ws @ c # rest) = c # rest"
    if "\<forall>x \<in> set ws. isspace x" "\<not> isspace c"
    using that by (simp add: skip_spaces_dropWhile dropWhile_append)
  have b: "skip_spaces line = []" if "\<forall>x \<in> set line. isspace x"
    using that by (simp add: skip_spaces_dropWhile)
  show ?thesis
    using a b by (simp add: parse_ftp_listing_def Let_def)
qed

theorem parse_ftp_listing_dispatch_witness:
  "parse_ftp_listing 2026 mktime_const 0 0 '' ?rwxr-xr-x 2 u g 4096 Jan  1 12:00 docs'' = None
   \<and> parse_ftp_listing 2026 mktime_const 0 0 ''   '' = None
   \<and> parse_ftp_listing 2026 mktime_const 0 0 '' drwxr-xr-x''
       = parse_unix_listing 2026 mktime_const ''drwxr-xr-x''
   \<and> parse_ftp_listing 2026 mktime_const 0 0 '' 01-01-24''
       = parse_windows_listing mktime_const 0 0 ''01-01-24''"
  using parse_ftp_listing_dispatch [of "'' ''" "CHR ''?''" 2026 mktime_const 0 0
      "''rwxr-xr-x 2 u g 4096 Jan  1 12:00 docs''" "''   ''"]
    parse_ftp_listing_dispatch [of "'' ''" "CHR ''d''" 2026 mktime_const 0 0
      "''rwxr-xr-x''" "''   ''"]
    parse_ftp_listing_dispatch [of "'' ''" "CHR ''0''" 2026 mktime_const 0 0
      "''1-01-24''" "''   ''"]
  by (simp add: isspace_def isdigit_def)

(* C7 *)
text \<open>
  The tokens \<^verbatim>\<open>strtok\<close> returns are the non-empty lines of the body, one after the
  other; so the first pass counts them and the bound \<open>idx < count\<close> of the second pass
  never stops it early.
\<close>

lemma spec_lines_from_skip:
  "spec_lines_from [] s = spec_lines_from [] (dropWhile (\<lambda>c. c \<in> set [CHR 0x0A]) s)"
  by (induction s) auto

lemma spec_lines_from_token:
  "spec_lines_from cur s =
     (if cur @ takeWhile (\<lambda>c. c \<notin> set [CHR 0x0A]) s = []
      then spec_lines_from [] (drop 1 (dropWhile (\<lambda>c. c \<notin> set [CHR 0x0A]) s))
      else (cur @ takeWhile (\<lambda>c. c \<notin> set [CHR 0x0A]) s)
             # spec_lines_from [] (drop 1 (dropWhile (\<lambda>c. c \<notin> set [CHR 0x0A]) s)))"
  by (induction s arbitrary: cur) auto

declare count_lines.simps [simp del] parse_lines.simps [simp del]

lemma strtok_None: "strtok s [CHR 0x0A] = None \<Longrightarrow> spec_lines s = []"
proof -
  assume "strtok s [CHR 0x0A] = None"
  then have e: "dropWhile (\<lambda>c. c \<in> set [CHR 0x0A]) s = []"
    by (auto simp: strtok_def Let_def split: if_splits)
  have "spec_lines s = spec_lines_from [] (dropWhile (\<lambda>c. c \<in> set [CHR 0x0A]) s)"
    unfolding spec_lines_def by (rule spec_lines_from_skip)
  also have "\<dots> = []"
    unfolding e by simp
  finally show ?thesis .
qed

lemma strtok_Some:
  assumes "strtok s [CHR 0x0A] = Some (line, rest)"
  shows "spec_lines s = line # spec_lines rest"
proof -
  let ?s1 = "dropWhile (\<lambda>c. c \<in> set [CHR 0x0A]) s"
  from assms have ne: "?s1 \<noteq> []"
    and line: "line = takeWhile (\<lambda>c. c \<notin> set [CHR 0x0A]) ?s1"
    and rest: "rest = drop 1 (dropWhile (\<lambda>c. c \<notin> set [CHR 0x0A]) ?s1)"
    by (auto simp: strtok_def Let_def split: if_splits)
  from ne have "\<not> (hd ?s1 \<in> set [CHR 0x0A])"
    by (rule hd_dropWhile)
  with ne have "line \<noteq> []"
    unfolding line by (cases ?s1) auto
  have "spec_lines s = spec_lines_from [] ?s1"
    unfolding spec_lines_def by (rule spec_lines_from_skip)
  also have "\<dots> = line # spec_lines_from [] rest"
    using \<open>line \<noteq> []\<close> unfolding line rest
    by (subst spec_lines_from_token) simp
  finally show ?thesis by (simp add: spec_lines_def)
qed

lemma count_lines_spec: "count_lines s = int (length (spec_lines s))"
proof (induction s rule: count_lines.induct)
  case (1 s)
  show ?case
  proof (cases "strtok s [CHR 0x0A]")
    case None
    then show ?thesis
      by (subst count_lines.simps) (simp add: strtok_None)
  next
    case (Some a)
    obtain line rest where a: "a = (line, rest)" by (cases a)
    from "1.IH" [OF Some a [symmetric]] strtok_Some [OF Some [unfolded a]] Some a
    show ?thesis
      by (subst count_lines.simps) simp
  qed
qed

lemma parse_lines_spec:
  "idx + int (length (spec_lines s)) \<le> count \<Longrightarrow>
   parse_lines parse idx count s
     = (List.map_filter parse (spec_lines s),
        idx + int (length (List.map_filter parse (spec_lines s))))"
proof (induction parse idx count s rule: parse_lines.induct)
  case (1 parse idx count s)
  show ?case
  proof (cases "strtok s [CHR 0x0A]")
    case None
    then show ?thesis
      by (subst parse_lines.simps) (simp add: strtok_None)
  next
    case tok: (Some a)
    obtain line rest where a: "a = (line, rest)" by (cases a)
    have sl: "spec_lines s = line # spec_lines rest"
      using strtok_Some tok a by simp
    with "1.prems" have lt: "idx < count" and
      le1: "idx + 1 + int (length (spec_lines rest)) \<le> count" and
      le2: "idx + int (length (spec_lines rest)) \<le> count"
      by auto
    show ?thesis
    proof (cases "parse line")
      case None
      from "1.IH"(1) [OF tok a [symmetric] lt None le2] tok a lt None sl
      show ?thesis
        by (subst parse_lines.simps) simp
    next
      case (Some item)
      from "1.IH"(2) [OF tok a [symmetric] lt Some le1] tok a lt Some sl
      show ?thesis
        by (subst parse_lines.simps) simp
    qed
  qed
qed

lemma ftp_list_dir_map_filter:
  "ftp_list_dir cy mk h0 m0 (Some body)
     = (0, List.map_filter (parse_ftp_listing cy mk h0 m0) (spec_lines body),
        int (length (List.map_filter (parse_ftp_listing cy mk h0 m0) (spec_lines body))))"
proof -
  let ?parse = "parse_ftp_listing cy mk h0 m0"
  have "parse_lines ?parse 0 (count_lines body) body
     = (List.map_filter ?parse (spec_lines body),
        0 + int (length (List.map_filter ?parse (spec_lines body))))"
    by (rule parse_lines_spec) (simp add: count_lines_spec)
  then show ?thesis
    by (simp add: ftp_list_dir_def Let_def)
qed

lemma parse_unix_docs_line:
  "parse_unix_listing cy mk ''drwxr-xr-x 2 u g 4096 Jan  1 12:00 docs''
     = Some \<lparr>name = ''docs'', item_type = FTP_TYPE_DIR, item_size = 4096,
              mtime = mk \<lparr>tm_year = cy - 1900, tm_mon = 0, tm_mday = 1,
                          tm_hour = 12, tm_min = 0, tm_sec = 0\<rparr>,
              mode = 0x41ED\<rparr>"
  apply code_simp
  apply simp
  done

lemma parse_unix_readme_line:
  "parse_unix_listing cy mk ''-rw-r--r-- 1 u g   42 Feb 15  2023 README''
     = Some \<lparr>name = ''README'', item_type = FTP_TYPE_FILE, item_size = 42,
              mtime = mk \<lparr>tm_year = 123, tm_mon = 1, tm_mday = 15,
                          tm_hour = 0, tm_min = 0, tm_sec = 0\<rparr>,
              mode = 0x81A4\<rparr>"
  apply code_simp
  apply simp
  done

lemma parse_docs_line:
  "parse_ftp_listing cy mk h0 m0 ''drwxr-xr-x 2 u g 4096 Jan  1 12:00 docs''
     = Some \<lparr>name = ''docs'', item_type = FTP_TYPE_DIR, item_size = 4096,
              mtime = mk \<lparr>tm_year = cy - 1900, tm_mon = 0, tm_mday = 1,
                          tm_hour = 12, tm_min = 0, tm_sec = 0\<rparr>,
              mode = 0x41ED\<rparr>"
  by (simp add: parse_ftp_listing_def isspace_def isdigit_def Let_def parse_unix_docs_line)

lemma parse_readme_line:
  "parse_ftp_listing cy mk h0 m0 ''-rw-r--r-- 1 u g   42 Feb 15  2023 README''
     = Some \<lparr>name = ''README'', item_type = FTP_TYPE_FILE, item_size = 42,
              mtime = mk \<lparr>tm_year = 123, tm_mon = 1, tm_mday = 15,
                          tm_hour = 0, tm_min = 0, tm_sec = 0\<rparr>,
              mode = 0x81A4\<rparr>"
  by (simp add: parse_ftp_listing_def isspace_def isdigit_def Let_def parse_unix_readme_line)

lemma parse_total_line: "parse_ftp_listing cy mk h0 m0 ''total 8'' = None"
  by (simp add: parse_ftp_listing_def isspace_def isdigit_def Let_def)

lemma parse_garbage_line: "parse_ftp_listing cy mk h0 m0 ''garbage'' = None"
  by (simp add: parse_ftp_listing_def isspace_def isdigit_def Let_def)

lemma spec_lines_fixture:
  "spec_lines ''drwxr-xr-x 2 u g 4096 Jan  1 12:00 docs\<newline>-rw-r--r-- 1 u g   42 Feb 15  2023 README''
     = [''drwxr-xr-x 2 u g 4096 Jan  1 12:00 docs'', ''-rw-r--r-- 1 u g   42 Feb 15  2023 README'']"
  by (simp add: spec_lines_def)

lemma spec_lines_mixed:
  "spec_lines ''total 8\<newline>drwxr-xr-x 2 u g 4096 Jan  1 12:00 docs\<newline>\<newline>garbage\<newline>-rw-r--r-- 1 u g   42 Feb 15  2023 README\<newline>''
     = [''total 8'', ''drwxr-xr-x 2 u g 4096 Jan  1 12:00 docs'', ''garbage'',
        ''-rw-r--r-- 1 u g   42 Feb 15  2023 README'']"
  by (simp add: spec_lines_def)

text \<open>
  C7. For every body of a LIST response, \<^verbatim>\<open>ftp_list_dir\<close> returns 0; the items are
  those of the lines the parser accepts, in the order of the lines, a rejected line
  leaving no trace; and the count returned is the number of accepted lines.
\<close>

theorem ftp_list_dir_skips_rejects:
  "ftp_list_dir cy mk h0 m0 (Some body)
     = (0,
        List.map_filter (parse_ftp_listing cy mk h0 m0) (spec_lines body),
        int (length (filter (\<lambda>l. parse_ftp_listing cy mk h0 m0 l \<noteq> None) (spec_lines body))))"
proof -
  let ?parse = "parse_ftp_listing cy mk h0 m0"
  have len: "length (List.map_filter ?parse ls) = length (filter (\<lambda>l. ?parse l \<noteq> None) ls)" for ls
    by (induction ls) auto
  show ?thesis
    unfolding ftp_list_dir_map_filter by (simp only: len)
qed

theorem ftp_list_dir_skips_rejects_witness:
  "ftp_list_dir 2026 mktime_const 0 0
     (Some ''total 8\<newline>drwxr-xr-x 2 u g 4096 Jan  1 12:00 docs\<newline>\<newline>garbage\<newline>-rw-r--r-- 1 u g   42 Feb 15  2023 README\<newline>'')
   = (0, [\<lparr>name = ''docs'', item_type = FTP_TYPE_DIR, item_size = 4096, mtime = 0, mode = 0x41ED\<rparr>,
          \<lparr>name = ''README'', item_type = FTP_TYPE_FILE, item_size = 42, mtime = 0, mode = 0x81A4\<rparr>], 2)"
  unfolding ftp_list_dir_skips_rejects spec_lines_mixed
  by (simp add: parse_docs_line parse_readme_line parse_total_line parse_garbage_line
      mktime_const_def)

text \<open>
  C5, as amended. The two lines of the fixture give exactly two entries:
  (\<^verbatim>\<open>docs\<close>, directory, size 4096, the size the listing shows) and
  (\<^verbatim>\<open>README\<close>, file, size 42). The time of \<^verbatim>\<open>README\<close> is built from year 2023,
  month February (\<^verbatim>\<open>tm_mon\<close> 1), day 15, hour 0 and minute 0; that of \<^verbatim>\<open>docs\<close> from
  the current local year, January 1, hour 12 and minute 0.
\<close>

theorem unix_fixture:
  "ftp_list_dir cy mk h0 m0
     (Some ''drwxr-xr-x 2 u g 4096 Jan  1 12:00 docs\<newline>-rw-r--r-- 1 u g   42 Feb 15  2023 README'')
   = (0,
      [\<lparr>name = ''docs'', item_type = FTP_TYPE_DIR, item_size = 4096,
        mtime = mk \<lparr>tm_year = cy - 1900, tm_mon = 0, tm_mday = 1,
                    tm_hour = 12, tm_min = 0, tm_sec = 0\<rparr>,
        mode = S_IFDIR OR 0x1ED\<rparr>,
       \<lparr>name = ''README'', item_type = FTP_TYPE_FILE, item_size = 42,
        mtime = mk \<lparr>tm_year = 2023 - 1900, tm_mon = 1, tm_mday = 15,
                    tm_hour = 0, tm_min = 0, tm_sec = 0\<rparr>,
        mode = S_IFREG OR 0x1A4\<rparr>],
      2)"
  unfolding ftp_list_dir_map_filter spec_lines_fixture
  by (simp add: parse_docs_line parse_readme_line S_IFDIR_def S_IFREG_def)

theorem unix_fixture_witness:
  "ftp_list_dir 2026 mktime_const 0 0
     (Some ''drwxr-xr-x 2 u g 4096 Jan  1 12:00 docs\<newline>-rw-r--r-- 1 u g   42 Feb 15  2023 README'')
   = (0,
      [\<lparr>name = ''docs'', item_type = FTP_TYPE_DIR, item_size = 4096, mtime = 0, mode = 0x41ED\<rparr>,
       \<lparr>name = ''README'', item_type = FTP_TYPE_FILE, item_size = 42, mtime = 0, mode = 0x81A4\<rparr>],
      2)"
  unfolding unix_fixture [of 2026 mktime_const 0 0]
  by (simp add: mktime_const_def S_IFDIR_def S_IFREG_def)

text \<open>
  C5 as stated, with size 0 for the directory, fails: the sizes parsed from the fixture
  are not 0 and 42, since the Unix parser keeps the size column of a directory line.
\<close>

theorem unix_fixture_counterexample:
  "map item_size (fst (snd (ftp_list_dir 2026 mktime_const 0 0
     (Some ''drwxr-xr-x 2 u g 4096 Jan  1 12:00 docs\<newline>-rw-r--r-- 1 u g   42 Feb 15  2023 README''))))
   \<noteq> [0, 42]"
  unfolding ftp_list_dir_map_filter spec_lines_fixture
  by (simp add: parse_docs_line parse_readme_line)

section \<open>Scanning a line of fields\<close>

lemma isdigit_not_isspace: "isdigit c \<Longrightarrow> \<not> isspace c"
  by (auto simp: isdigit_def isspace_def Let_def)

lemma spec_digits_word: "spec_digits ds \<Longrightarrow> spec_word ds"
  by (auto simp: spec_digits_def spec_word_def list_all_iff isdigit_not_isspace)

lemma spec_blank_hd: "spec_blank sp \<Longrightarrow> isspace (hd (sp @ r))"
  by (cases sp) (auto simp: spec_blank_def)

lemma spec_word_hd: "spec_word w \<Longrightarrow> \<not> isspace (hd (w @ r))"
  by (cases w) (auto simp: spec_word_def)

lemma skip_spaces_append:
  "list_all isspace sp \<Longrightarrow> r = [] \<or> \<not> isspace (hd r) \<Longrightarrow> skip_spaces (sp @ r) = r"
  by (induction sp) (auto, cases r, auto)

lemma skip_nonspace_append:
  "list_all (\<lambda>c. \<not> isspace c) w \<Longrightarrow> r = [] \<or> isspace (hd r) \<Longrightarrow> skip_nonspace (w @ r) = r"
  by (induction w) (auto, cases r, auto)

lemma scan_digits_append:
  "list_all isdigit ds \<Longrightarrow> r = [] \<or> \<not> isdigit (hd r) \<Longrightarrow>
   scan_digits (of_nat n) (ds @ r)
     = (of_nat (foldl (\<lambda>v c. v * 10 + (of_char c - 48)) n ds), r)"
proof (induction ds arbitrary: n)
  case Nil
  then show ?case by (cases r) auto
next
  case (Cons c ds)
  then have d: "isdigit c" by simp
  then have "48 \<le> (of_char c :: nat)"
    by (simp add: isdigit_def Let_def)
  then have "(of_nat n :: 'a word) * 10 + (of_nat (of_char c) - 48)
               = of_nat (n * 10 + (of_char c - 48))"
    by (simp add: of_nat_diff)
  with d Cons.IH [of "n * 10 + (of_char c - 48)"] Cons.prems show ?case
    by simp
qed

text \<open>A field followed by blanks and more text: the scanner stops at the text.\<close>

lemma skip_field:
  "spec_word w \<Longrightarrow> spec_blank sp \<Longrightarrow> r = [] \<or> \<not> isspace (hd r) \<Longrightarrow>
   skip_spaces (skip_nonspace (w @ sp @ r)) = r"
  using skip_nonspace_append [of w "sp @ r"] skip_spaces_append [of sp r] spec_blank_hd [of sp r]
  by (simp add: spec_word_def spec_blank_def)

lemma scan_field:
  "spec_digits ds \<Longrightarrow> spec_blank sp \<Longrightarrow> r = [] \<or> \<not> isspace (hd r) \<Longrightarrow>
   scan_digits 0 (ds @ sp @ r) = (of_nat (spec_decimal ds), sp @ r)
   \<and> skip_spaces (sp @ r) = r"
  using scan_digits_append [of ds "sp @ r" 0] skip_spaces_append [of sp r] spec_blank_hd [of sp r]
    isdigit_not_isspace [of "hd (sp @ r)"]
  by (auto simp: spec_digits_def spec_blank_def spec_decimal_def)

section \<open>Properties of the Windows parser\<close>

lemma strcasecmp_eq_0: "strcasecmp a b = 0 \<longleftrightarrow> map tolower a = map tolower b"
  by (induction a b rule: strcasecmp.induct) auto

lemma strncasecmp_eq_0:
  "strncasecmp a b n = 0 \<longleftrightarrow> map tolower (take n a) = map tolower (take n b)"
  by (induction a b n rule: strncasecmp.induct) auto

lemma tolower_PM: "map tolower ''PM'' = ''pm''"
  by code_simp

lemma tolower_AM: "map tolower ''AM'' = ''am''"
  by code_simp

lemma tolower_DIR: "map tolower ''<DIR>'' = ''<dir>''"
  by code_simp

lemma strcasecmp_PM: "strcasecmp a ''PM'' = 0 \<longleftrightarrow> map tolower a = ''pm''"
  unfolding strcasecmp_eq_0 tolower_PM ..

lemma strcasecmp_AM: "strcasecmp a ''AM'' = 0 \<longleftrightarrow> map tolower a = ''am''"
  unfolding strcasecmp_eq_0 tolower_AM ..

lemma strncasecmp_DIR:
  "strncasecmp p ''<DIR>'' 5 = 0 \<longleftrightarrow> map tolower (take 5 p) = ''<dir>''"
proof -
  have "take 5 ''<DIR>'' = ''<DIR>''" by simp
  then show ?thesis
    unfolding strncasecmp_eq_0 by (simp only: tolower_DIR)
qed

lemma small_word_sless:
  "n < 100 \<Longrightarrow> (of_nat n :: 32 word) <s 50 \<longleftrightarrow> n < 50"
proof -
  assume n: "n < 100"
  have "sint (of_nat n :: 32 word) = signed_take_bit 31 (int n)"
    by (simp add: signed_of_nat)
  also have "\<dots> = int n"
    using n by (intro signed_take_bit_int_eq_self) simp_all
  finally have "sint (of_nat n :: 32 word) = int n" .
  then show ?thesis by (simp add: word_sless_alt)
qed

lemma small_word_eq:
  "n < 100 \<Longrightarrow> m < 100 \<Longrightarrow> (of_nat n :: 32 word) = of_nat m \<longleftrightarrow> n = m"
  by (simp add: word_of_nat_eq_iff take_bit_nat_eq_self)

lemma two_digits:
  assumes "length ds = 2" "list_all isdigit ds"
  obtains c1 c2 where "ds = [c1, c2]" "isdigit c1" "isdigit c2" "spec_decimal ds < 100"
proof -
  from assms(1) obtain c1 c2 where ds: "ds = [c1, c2]"
    by (cases ds; cases "tl ds") auto
  with assms(2) have d: "isdigit c1" "isdigit c2" by simp_all
  then have "spec_decimal ds < 100"
    by (auto simp: ds spec_decimal_def isdigit_def Let_def)
  with ds d show ?thesis by (rule that)
qed

lemma scan_2d_digits:
  assumes "isdigit c1" "isdigit c2"
  shows "scan_2d (c1 # c2 # r) = Some (of_nat (spec_decimal [c1, c2]), r)"
proof -
  have ns: "\<not> isspace c1" using assms(1) by (rule isdigit_not_isspace)
  have sg: "c1 \<noteq> CHR ''-''" "c1 \<noteq> CHR ''+''"
    using assms(1) by (auto simp: isdigit_def Let_def)
  have ge: "48 \<le> (of_char c1 :: nat)" "48 \<le> (of_char c2 :: nat)"
    using assms by (simp_all add: isdigit_def Let_def)
  then have v: "((of_nat (of_char c1) - 48) * 10 + (of_nat (of_char c2) - 48) :: 32 word)
                 = of_nat (spec_decimal [c1, c2])"
    by (simp add: spec_decimal_def of_nat_diff)
  show ?thesis
    using ns sg assms v by (simp add: scan_2d_def)
qed

lemma tolower_digit: "isdigit c \<Longrightarrow> tolower c = c"
  by (auto simp: isdigit_def tolower_def Let_def)

lemma digits_not_dir: "spec_digits fld \<Longrightarrow> map tolower (take 5 (fld @ r)) \<noteq> ''<dir>''"
proof -
  assume "spec_digits fld"
  then obtain c cs where fld: "fld = c # cs" and d: "isdigit c"
    by (cases fld) (auto simp: spec_digits_def)
  from d have "c \<noteq> CHR ''<''" by (auto simp: isdigit_def Let_def)
  with d show ?thesis by (simp add: fld tolower_digit)
qed

text \<open>
  Lines of the layout \<^verbatim>\<open>MM-DD-YY  HH:MM{AM|PM}  (<DIR>|size)  name\<close>, with a year of two
  digits: the year \<open>y\<close> becomes \<open>2000 + y\<close> below 50 and \<open>1900 + y\<close> from 50 on; the
  marker is compared without regard to case, PM adds 12 to every hour but 12, AM turns
  hour 12 into 0 and the hour is kept otherwise; \<^verbatim>\<open><DIR>\<close> in any case gives a directory
  of size 0 and a run of digits a file of that size; the name is the rest of the line
  without trailing white space.
\<close>

lemma parse_windows_listing_two_digit_year:
  assumes mm: "length mm = 2" "list_all isdigit mm"
    and dd: "length dd = 2" "list_all isdigit dd"
    and yy: "length yy = 2" "list_all isdigit yy"
    and hh: "length hh = 2" "list_all isdigit hh"
    and mi: "length mi = 2" "list_all isdigit mi"
    and ampm: "length ampm = 2" "list_all (\<lambda>c. \<not> isspace c) ampm"
    and blanks: "list_all isspace sp1" "spec_blank sp2" "spec_blank sp3"
    and fld: "map tolower fld = ''<dir>'' \<or> spec_digits fld"
    and nm: "nm \<noteq> []" "\<not> isspace (hd nm)"
    and line: "line = mm @ ''-'' @ dd @ ''-'' @ yy @ sp1 @ hh @ '':'' @ mi @ ampm
                       @ sp2 @ fld @ sp3 @ nm"
    and len: "20 \<le> length line"
  shows "parse_windows_listing mk hour0 min0 line =
     Some \<lparr>name = rev (dropWhile isspace (rev (take (MAX_PATH_LEN - 1) nm))),
           item_type = (if map tolower fld = ''<dir>'' then FTP_TYPE_DIR else FTP_TYPE_FILE),
           item_size = (if map tolower fld = ''<dir>'' then 0 else of_nat (spec_decimal fld)),
           mtime = mk \<lparr>tm_year = of_nat (if spec_decimal yy < 50 then 2000 + spec_decimal yy
                                          else 1900 + spec_decimal yy) - 1900,
                       tm_mon = of_nat (spec_decimal mm) - 1,
                       tm_mday = of_nat (spec_decimal dd),
                       tm_hour = of_nat
                         (if map tolower ampm = ''pm'' \<and> spec_decimal hh \<noteq> 12
                          then spec_decimal hh + 12
                          else if map tolower ampm = ''am'' \<and> spec_decimal hh = 12 then 0
                          else spec_decimal hh),
                       tm_min = of_nat (spec_decimal mi),
                       tm_sec = 0\<rparr>,
           mode = (if map tolower fld = ''<dir>'' then S_IFDIR OR 0x1ED else S_IFREG OR 0x1A4)\<rparr>"
proof -
  from mm obtain m1 m2 where mm': "mm = [m1, m2]" "isdigit m1" "isdigit m2" by (rule two_digits)
  from dd obtain d1 d2 where dd': "dd = [d1, d2]" "isdigit d1" "isdigit d2" by (rule two_digits)
  from yy obtain y1 y2 where yy': "yy = [y1, y2]" "isdigit y1" "isdigit y2"
    and ylt: "spec_decimal yy < 100" by (rule two_digits)
  from hh obtain h1 h2 where hh': "hh = [h1, h2]" "isdigit h1" "isdigit h2"
    and hlt: "spec_decimal hh < 100" by (rule two_digits)
  from mi obtain n1 n2 where mi': "mi = [n1, n2]" "isdigit n1" "isdigit n2" by (rule two_digits)
  from ampm obtain a1 a2 where ap: "ampm = [a1, a2]" "\<not> isspace a1" "\<not> isspace a2"
    by (cases ampm; cases "tl ampm") auto
  define r3 where "r3 = sp3 @ nm"
  define r2 where "r2 = fld @ r3"
  define r1 where "r1 = sp2 @ r2"
  define p1 where "p1 = hh @ '':'' @ mi @ ampm @ r1"
  have line': "line = m1 # m2 # CHR ''-'' # d1 # d2 # CHR ''-'' # y1 # y2 # sp1 @ p1"
    by (simp add: line mm' dd' yy' p1_def r1_def r2_def r3_def)
  have date: "sscanf_date line
                = [of_nat (spec_decimal mm), of_nat (spec_decimal dd), of_nat (spec_decimal yy)]"
    unfolding line' sscanf_date_def
    by (simp add: scan_2d_digits mm' dd' yy')
  have p1_hd: "\<not> isspace (hd p1)"
    using hh'(2) isdigit_not_isspace by (simp add: p1_def hh'(1))
  have d8: "skip_spaces (drop 8 line) = p1"
    using skip_spaces_append [OF blanks(1), of p1] p1_hd by (simp add: line')
  have r1_hd: "isspace (hd r1)" "r1 \<noteq> []"
    using spec_blank_hd [OF blanks(2), of r2] blanks(2) by (simp_all add: r1_def spec_blank_def)
  have tm: "sscanf_time p1 = ([of_nat (spec_decimal hh), of_nat (spec_decimal mi)], ampm)"
    unfolding sscanf_time_def p1_def hh'(1) mi'(1) ap(1)
    using ap(2,3) r1_hd
    by (cases r1) (simp_all add: scan_2d_digits hh' mi')
  have w: "list_all (\<lambda>c. \<not> isspace c) (hh @ '':'' @ mi @ ampm)"
    using hh'(2,3) mi'(2,3) ap(2,3) isdigit_not_isspace
    by (simp add: hh'(1) mi'(1) ap(1)) (simp add: isspace_def)
  have p2: "skip_spaces (skip_nonspace p1) = r2"
  proof -
    have "fld \<noteq> []" using fld by (auto simp: spec_digits_def)
    moreover have "\<not> isspace (hd fld)"
    proof (rule disjE [OF fld])
      assume "map tolower fld = ''<dir>''"
      then obtain c cs where f: "fld = c # cs" and c: "tolower c = CHR ''<''" by (cases fld) auto
      have "\<not> isspace c"
      proof
        assume "isspace c"
        then have "tolower c = c" by (auto simp: isspace_def tolower_def Let_def)
        with c \<open>isspace c\<close> show False by (simp add: isspace_def)
      qed
      then show ?thesis by (simp add: f)
    next
      assume "spec_digits fld"
      then show ?thesis using spec_word_hd [OF spec_digits_word, of fld "[]"] by simp
    qed
    ultimately have "\<not> isspace (hd r2)" by (simp add: r2_def)
    with skip_nonspace_append [OF w, of r1] r1_hd skip_spaces_append [of sp2 r2] blanks(2)
    show ?thesis by (simp add: p1_def r1_def spec_blank_def)
  qed
  have p4: "skip_spaces r3 = nm"
    using skip_spaces_append [of sp3 nm] blanks(3) nm by (simp add: r3_def spec_blank_def)
  have r3_hd: "\<not> isdigit (hd r3)"
    using spec_blank_hd [OF blanks(3), of nm] isdigit_not_isspace [of "hd r3"]
    by (auto simp: r3_def)
  have ysl: "(of_nat (spec_decimal yy) :: 32 word) <s 50 \<longleftrightarrow> spec_decimal yy < 50"
    using ylt by (rule small_word_sless)
  have ysl2: "(of_nat (spec_decimal yy) :: 32 word) <s 100"
    using ylt by (simp add: word_sless_alt signed_of_nat signed_take_bit_int_eq_self)
  have h12: "(of_nat (spec_decimal hh) :: 32 word) = 12 \<longleftrightarrow> spec_decimal hh = 12"
    using small_word_eq [OF hlt, of 12] by simp
  show ?thesis
  proof (rule disjE [OF fld])
    assume dir: "map tolower fld = ''<dir>''"
    then have "length (map tolower fld) = length ''<dir>''" by (simp only:)
    then have l5: "length fld = 5" by simp
    have isdir: "strncasecmp r2 ''<DIR>'' 5 = 0"
      using dir l5 by (simp add: strncasecmp_DIR r2_def)
    have dr: "drop 5 r2 = r3" using l5 by (simp add: r2_def)
    from len show ?thesis
      unfolding parse_windows_listing_def parse_windows_fields_def
        skip_spaces_dropWhile [symmetric]
      by (simp add: date d8 tm p2 isdir dr p4 nm(1) Let_def ysl ysl2 h12 strcasecmp_PM strcasecmp_AM
          dir strncpy_def)
  next
    assume dg: "spec_digits fld"
    have nd: "map tolower fld \<noteq> ''<dir>''"
    proof
      assume e: "map tolower fld = ''<dir>''"
      then have "length (map tolower fld) = length ''<dir>''" by (simp only:)
      then have "take 5 (fld @ []) = fld" by simp
      with digits_not_dir [OF dg, of "[]"] e show False by (simp only:)
    qed
    have notdir: "strncasecmp r2 ''<DIR>'' 5 \<noteq> 0"
      using digits_not_dir [OF dg, of r3] by (simp add: strncasecmp_DIR r2_def)
    have sc: "scan_digits (0 :: 64 word) r2 = (of_nat (spec_decimal fld), r3)"
      using scan_digits_append [of fld r3 0, where 'a = 64] dg r3_hd
      by (simp add: r2_def spec_digits_def spec_decimal_def)
    from len show ?thesis
      unfolding parse_windows_listing_def parse_windows_fields_def
        skip_spaces_dropWhile [symmetric]
      by (simp add: date d8 tm p2 notdir sc p4 nm(1) Let_def ysl ysl2 h12 strcasecmp_PM strcasecmp_AM
          nd strncpy_def)
  qed
qed

text \<open>Three lines evaluated: a directory at 12 PM, a file at 12 AM, a file at 1 PM.\<close>

lemma windows_dir_line:
  "parse_windows_fields 0 0 ''01-01-24  12:00PM       <DIR>          name''
     = Some (\<lparr>name = ''name'', item_type = FTP_TYPE_DIR, item_size = 0, mtime = 0, mode = 0x41ED\<rparr>,
             \<lparr>tm_year = 124, tm_mon = 0, tm_mday = 1, tm_hour = 12, tm_min = 0, tm_sec = 0\<rparr>)"
  by code_simp

lemma windows_file_line:
  "parse_windows_fields 0 0 ''12-31-99  12:05am                1234 file.txt''
     = Some (\<lparr>name = ''file.txt'', item_type = FTP_TYPE_FILE, item_size = 1234, mtime = 0, mode = 0x81A4\<rparr>,
             \<lparr>tm_year = 99, tm_mon = 11, tm_mday = 31, tm_hour = 0, tm_min = 5, tm_sec = 0\<rparr>)"
  by code_simp

lemma windows_pm_line:
  "parse_windows_fields 0 0 ''07-04-49  01:30pm                  17 notes''
     = Some (\<lparr>name = ''notes'', item_type = FTP_TYPE_FILE, item_size = 17, mtime = 0, mode = 0x81A4\<rparr>,
             \<lparr>tm_year = 149, tm_mon = 6, tm_mday = 4, tm_hour = 13, tm_min = 30, tm_sec = 0\<rparr>)"
  by code_simp

lemma windows_two_digit_year_line:
  "parse_windows_listing mk 5 7 ''01-01-24  12:00PM  <DIR>  name''
     = Some \<lparr>name = ''name'', item_type = FTP_TYPE_DIR, item_size = 0,
              mtime = mk \<lparr>tm_year = 124, tm_mon = 0, tm_mday = 1, tm_hour = 12, tm_min = 0,
                          tm_sec = 0\<rparr>,
              mode = 0x41ED\<rparr>"
  apply code_simp
  apply simp
  done

text \<open>
  C8, at a line with a year of four digits, the second layout the comment in
  \<^verbatim>\<open>parse_windows_listing\<close> names. \<^verbatim>\<open>%2d\<close> reads \<^verbatim>\<open>20\<close> as the year and the time is
  looked for after the first eight bytes, at \<^verbatim>\<open>24  12:00PM\<close>: the entry comes out as a
  file of size 12 named \<^verbatim>\<open>:00PM  <DIR>  name\<close>, in the year 2020, with hour 24 and the
  minute left at the indeterminate value (here 7), where the rules give a directory of
  size 0 at 12 o'clock. With the year written \<^verbatim>\<open>24\<close> the same line parses as they say.
\<close>

theorem windows_four_digit_year:
  "parse_windows_listing mktime_const 5 7 ''01-01-2024  12:00PM  <DIR>  name''
     = Some \<lparr>name = '':00PM  <DIR>  name'', item_type = FTP_TYPE_FILE, item_size = 12,
              mtime = 0, mode = 0x81A4\<rparr>
   \<and> map_option snd (parse_windows_fields 5 7 ''01-01-2024  12:00PM  <DIR>  name'')
     = Some \<lparr>tm_year = 120, tm_mon = 0, tm_mday = 1, tm_hour = 24, tm_min = 7, tm_sec = 0\<rparr>"
  by code_simp

section \<open>Properties of the Unix parser\<close>

text \<open>What \<^verbatim>\<open>strstr\<close> finds is the first occurrence, and a string cut there has none.\<close>

lemma strstr_None_iff:
  "strstr p n = None \<longleftrightarrow> (\<forall>j \<le> length p. \<not> prefix n (drop j p))"
proof (induction p)
  case Nil
  show ?case by auto
next
  case (Cons x xs)
  have "(\<forall>j \<le> length (x # xs). \<not> prefix n (drop j (x # xs)))
          \<longleftrightarrow> \<not> prefix n (x # xs) \<and> (\<forall>j \<le> length xs. \<not> prefix n (drop j xs))"
  proof
    assume a: "\<forall>j \<le> length (x # xs). \<not> prefix n (drop j (x # xs))"
    have "\<not> prefix n (x # xs)" using a [rule_format, of 0] by simp
    moreover have "\<not> prefix n (drop j xs)" if "j \<le> length xs" for j
      using a [rule_format, of "Suc j"] that by simp
    ultimately show "\<not> prefix n (x # xs) \<and> (\<forall>j \<le> length xs. \<not> prefix n (drop j xs))"
      by blast
  next
    assume b: "\<not> prefix n (x # xs) \<and> (\<forall>j \<le> length xs. \<not> prefix n (drop j xs))"
    show "\<forall>j \<le> length (x # xs). \<not> prefix n (drop j (x # xs))"
    proof (intro allI impI)
      fix j assume "j \<le> length (x # xs)"
      then show "\<not> prefix n (drop j (x # xs))"
        using b by (cases j) auto
    qed
  qed
  with Cons.IH show ?case
    by (simp add: strncmp_length_eq_0)
qed

lemma strstr_Some_first:
  "strstr p n = Some i \<Longrightarrow>
     i \<le> length p \<and> prefix n (drop i p) \<and> (\<forall>j < i. \<not> prefix n (drop j p))"
proof (induction p arbitrary: i)
  case Nil
  then show ?case by (auto split: if_splits)
next
  case (Cons x xs)
  show ?case
  proof (cases "prefix n (x # xs)")
    case True
    with Cons.prems show ?thesis by (simp add: strncmp_length_eq_0)
  next
    case False
    with Cons.prems obtain i' where i: "i = Suc i'" and s: "strstr xs n = Some i'"
      by (auto simp: strncmp_length_eq_0)
    from Cons.IH [OF s] have ih: "i' \<le> length xs" "prefix n (drop i' xs)"
      "\<forall>j < i'. \<not> prefix n (drop j xs)" by auto
    have "\<not> prefix n (drop j (x # xs))" if "j < i" for j
      using that False ih(3) i by (cases j) auto
    with ih i show ?thesis by simp
  qed
qed

lemma prefix_drop_take: "prefix n (drop j (take k p)) \<Longrightarrow> prefix n (drop j p)"
proof -
  assume a: "prefix n (drop j (take k p))"
  have "drop j (take k p) = take (k - j) (drop j p)"
    by (simp add: drop_take)
  then have "prefix (drop j (take k p)) (drop j p)"
    by (simp add: take_is_prefix)
  with a show ?thesis by (rule prefix_order.trans)
qed

lemma strstr_take_None:
  assumes "n \<noteq> []" and "strstr p n = None \<or> (\<exists>i. strstr p n = Some i \<and> k \<le> i)"
  shows "strstr (take k p) n = None"
  unfolding strstr_None_iff
proof (intro allI impI notI)
  fix j assume j: "j \<le> length (take k p)" and occ: "prefix n (drop j (take k p))"
  from occ have occ': "prefix n (drop j p)" by (rule prefix_drop_take)
  from j have jp: "j \<le> length p" and jk: "j \<le> k" by simp_all
  from assms(2) show False
  proof
    assume "strstr p n = None"
    with occ' jp show False by (simp add: strstr_None_iff)
  next
    assume "\<exists>i. strstr p n = Some i \<and> k \<le> i"
    then obtain i where i: "strstr p n = Some i" and ki: "k \<le> i" by blast
    note f = strstr_Some_first [OF i]
    show False
    proof (cases "j < i")
      case True
      with f occ' show False by blast
    next
      case False
      with jk ki have "j = k" by simp
      with j have "drop j (take k p) = []" by simp
      with occ assms(1) show False by simp
    qed
  qed
qed

text \<open>Every scanning step of the Unix parser moves along the line.\<close>

lemma suffix_skip_spaces: "suffix s t \<Longrightarrow> suffix (skip_spaces s) t"
proof -
  have "suffix (skip_spaces s) s"
    by (induction s) (auto intro: suffix_ConsI)
  then show "suffix s t \<Longrightarrow> suffix (skip_spaces s) t"
    by (rule suffix_order.trans)
qed

lemma suffix_skip_nonspace: "suffix s t \<Longrightarrow> suffix (skip_nonspace s) t"
proof -
  have "suffix (skip_nonspace s) s"
    by (induction s) (auto intro: suffix_ConsI)
  then show "suffix s t \<Longrightarrow> suffix (skip_nonspace s) t"
    by (rule suffix_order.trans)
qed

lemma suffix_scan_digits: "suffix s t \<Longrightarrow> suffix (snd (scan_digits v s)) t"
proof -
  have "suffix (snd (scan_digits v s)) s"
    by (induction s arbitrary: v) (auto intro: suffix_ConsI)
  then show "suffix s t \<Longrightarrow> suffix (snd (scan_digits v s)) t"
    by (rule suffix_order.trans)
qed

lemma suffix_drop_trans: "suffix s t \<Longrightarrow> suffix (drop k s) t"
  using suffix_drop [of k s] by (rule suffix_order.trans)

lemma suffix_tl_trans: "suffix s t \<Longrightarrow> suffix (tl s) t"
  using suffix_tl [of s] by (rule suffix_order.trans)

lemma hd_skip_spaces: "skip_spaces s \<noteq> [] \<Longrightarrow> \<not> isspace (hd (skip_spaces s))"
  by (induction s) auto

lemma parse_unix_listing_name:
  assumes ok: "parse_unix_listing cy mk line = Some item"
  shows "\<exists>p. suffix p line \<and> p \<noteq> [] \<and> \<not> isspace (hd p)
           \<and> name item = take (MAX_PATH_LEN - 1)
                            (case strstr p '' -> '' of Some arrow \<Rightarrow> take arrow p | None \<Rightarrow> p)"
proof -
  define p4 where "p4 = skip_spaces (skip_nonspace (skip_spaces (skip_nonspace
                          (skip_spaces (skip_nonspace (skip_spaces (skip_nonspace (tl line))))))))"
  define p6 where "p6 = skip_spaces (snd (scan_digits (0 :: 64 word) p4))"
  define p9 where "p9 = skip_spaces (snd (scan_digits (0 :: 32 word) (skip_spaces (drop 3 p6))))"
  define q1 where "q1 = snd (scan_digits (0 :: 32 word) p9)"
  define q3 where "q3 = snd (scan_digits (0 :: 32 word)
                               (if q1 \<noteq> [] \<and> hd q1 = CHR '':'' then tl q1 else q1))"
  define p11 where "p11 = skip_spaces (if strchr p9 CHR '':'' then q3 else q1)"
  have suf: "suffix p11 line"
    unfolding p11_def q3_def q1_def p9_def p6_def p4_def
    by (auto intro!: suffix_skip_spaces suffix_skip_nonspace suffix_scan_digits
          suffix_drop_trans suffix_tl_trans)
  have both: "p11 \<noteq> [] \<and> name item = take (MAX_PATH_LEN - 1)
               (case strstr p11 '' -> '' of Some arrow \<Rightarrow> take arrow p11 | None \<Rightarrow> p11)"
  proof (cases "strchr p9 CHR '':''")
    case True
    with ok show ?thesis
      unfolding p11_def q3_def q1_def p9_def p6_def p4_def
      by (auto simp: parse_unix_listing_def Let_def split_beta strncpy_def cong: option.case_cong split: if_splits)
  next
    case False
    with ok show ?thesis
      unfolding p11_def q3_def q1_def p9_def p6_def p4_def
      by (auto simp: parse_unix_listing_def Let_def split_beta strncpy_def cong: option.case_cong split: if_splits)
  qed
  then have ne: "p11 \<noteq> []"
    and nm: "name item = take (MAX_PATH_LEN - 1)
               (case strstr p11 '' -> '' of Some arrow \<Rightarrow> take arrow p11 | None \<Rightarrow> p11)"
    by simp_all
  from ne have "\<not> isspace (hd p11)"
    unfolding p11_def by (rule hd_skip_spaces)
  with suf ne nm show ?thesis by blast
qed

lemma parse_unix_listing_name_kind:
  "map_option name (parse_unix_listing cy mk (CHR ''d'' # rest))
     = map_option name (parse_unix_listing cy mk (CHR ''l'' # rest))
   \<and> map_option name (parse_unix_listing cy mk (CHR ''-'' # rest))
     = map_option name (parse_unix_listing cy mk (CHR ''l'' # rest))"
  by (simp add: parse_unix_listing_def Let_def split_beta cong: option.case_cong)

lemma unix_file_arrow_line:
  "parse_unix_listing cy mk ''-rw-r--r-- 1 u g 42 Feb 15 2023 a -> b''
     = Some \<lparr>name = ''a'', item_type = FTP_TYPE_FILE, item_size = 42,
              mtime = mk \<lparr>tm_year = 123, tm_mon = 1, tm_mday = 15,
                          tm_hour = 0, tm_min = 0, tm_sec = 0\<rparr>,
              mode = 0x81A4\<rparr>"
  apply code_simp
  apply simp
  done

lemma unix_dir_arrow_line:
  "parse_unix_listing cy mk ''drwxr-xr-x 2 u g 4096 Jan  1 12:00 x -> y -> z''
     = Some \<lparr>name = ''x'', item_type = FTP_TYPE_DIR, item_size = 4096,
              mtime = mk \<lparr>tm_year = cy - 1900, tm_mon = 0, tm_mday = 1,
                          tm_hour = 12, tm_min = 0, tm_sec = 0\<rparr>,
              mode = 0x41ED\<rparr>"
  apply code_simp
  apply simp
  done

text \<open>An arrow after a name without \<^verbatim>\<open>>\<close> is the first one.\<close>

lemma no_arrow_prefix:
  "CHR ''>'' \<notin> set nm \<Longrightarrow> nm \<noteq> [] \<Longrightarrow> \<not> prefix '' -> '' (nm @ '' -> '' @ tgt)"
proof -
  assume a: "CHR ''>'' \<notin> set nm" and ne: "nm \<noteq> []"
  then obtain x xs where nm: "nm = x # xs" by (cases nm) auto
  show ?thesis
  proof (cases xs)
    case Nil
    with nm show ?thesis by simp
  next
    case (Cons y ys)
    show ?thesis
    proof (cases ys)
      case Nil
      with Cons nm show ?thesis by simp
    next
      case (Cons z zs)
      with \<open>xs = y # ys\<close> nm a show ?thesis by auto
    qed
  qed
qed

lemma strstr_Cons:
  "strstr (x # xs) n = (if prefix n (x # xs) then Some 0 else map_option Suc (strstr xs n))"
  by (simp add: strncmp_length_eq_0)

lemma strstr_append_arrow:
  "CHR ''>'' \<notin> set nm \<Longrightarrow> strstr (nm @ '' -> '' @ tgt) '' -> '' = Some (length nm)"
proof (induction nm)
  case Nil
  have "prefix '' -> '' ('' -> '' @ tgt)" by simp
  then show ?case
    by (simp only: append_Nil append_Cons strstr_Cons if_True list.size)
next
  case (Cons x xs)
  have "\<not> prefix '' -> '' (x # xs @ '' -> '' @ tgt)"
    using Cons.prems no_arrow_prefix [of "x # xs" tgt] by simp
  moreover have "strstr (xs @ '' -> '' @ tgt) '' -> '' = Some (length xs)"
    using Cons by simp
  ultimately show ?case
    by (simp only: append_Cons strstr_Cons if_False option.map list.size) simp
qed

lemma parse_month_Feb: "0 \<le> parse_month ''Feb''"
  by code_simp

text \<open>
  C10. Take a line of the Unix layout: the kind byte \<open>d\<close>, \<open>-\<close> or \<open>l\<close> and the
  permissions, then link count, owner, group, size, month, day and a year or a time
  \<^verbatim>\<open>HH:MM\<close>, each followed by white space, then the name field \<open>rest\<close>, which runs to the
  end of the line. For every kind the parser accepts it with the kind of its first byte,
  and the name is \<open>rest\<close> cut before its first \<^verbatim>\<open>" -> "\<close> (and to the size of the buffer):
  when \<open>rest\<close> is \<open>nm\<close>, the arrow and a target, with no \<^verbatim>\<open>>\<close> in \<open>nm\<close>, the name is
  \<open>nm\<close>, for a regular file and a directory as for a symlink.
\<close>

theorem unix_name_cut_at_arrow:
  assumes kind: "k = CHR ''d'' \<or> k = CHR ''-'' \<or> k = CHR ''l''"
    and perms: "list_all (\<lambda>c. \<not> isspace c) perms"
    and lnk: "spec_word lnk" and usr: "spec_word usr" and grp: "spec_word grp"
    and sz: "spec_digits sz"
    and mon: "spec_word mon" "length mon = 3" "0 \<le> parse_month mon"
    and day: "spec_digits day"
    and tyr: "spec_digits t1" "list_all isdigit t2" "tyr = t1 \<or> tyr = t1 @ CHR '':'' # t2"
    and blanks: "spec_blank sp1" "spec_blank sp2" "spec_blank sp3" "spec_blank sp4"
      "spec_blank sp5" "spec_blank sp6" "spec_blank sp7" "spec_blank sp8"
    and rest: "rest \<noteq> []" "\<not> isspace (hd rest)"
    and line: "line = k # perms @ sp1 @ lnk @ sp2 @ usr @ sp3 @ grp @ sp4 @ sz @ sp5
                       @ mon @ sp6 @ day @ sp7 @ tyr @ sp8 @ rest"
  shows "map_option name (parse_unix_listing cy mk line)
           = Some (take (MAX_PATH_LEN - 1)
                     (case strstr rest '' -> '' of Some arrow \<Rightarrow> take arrow rest | None \<Rightarrow> rest))
       \<and> map_option item_type (parse_unix_listing cy mk line)
           = Some (if k = CHR ''d'' then FTP_TYPE_DIR
                   else if k = CHR ''-'' then FTP_TYPE_FILE else FTP_TYPE_LINK)
       \<and> (rest = nm @ '' -> '' @ tgt \<and> CHR ''>'' \<notin> set nm \<longrightarrow>
            map_option name (parse_unix_listing cy mk line) = Some (take (MAX_PATH_LEN - 1) nm))"
proof -
  define p9 where "p9 = tyr @ sp8 @ rest"
  define r7 where "r7 = day @ sp7 @ p9"
  define r6 where "r6 = mon @ sp6 @ r7"
  define r5 where "r5 = sz @ sp5 @ r6"
  define r4 where "r4 = grp @ sp4 @ r5"
  define r3 where "r3 = usr @ sp3 @ r4"
  define r2 where "r2 = lnk @ sp2 @ r3"
  have line': "line = k # perms @ sp1 @ r2"
    by (simp add: line r2_def r3_def r4_def r5_def r6_def r7_def p9_def)
  have pos: "0 < length lnk" "0 < length usr" "0 < length grp" "0 < length sz"
    "0 < length sp1" "0 < length sp2" "0 < length sp3" "0 < length sp4" "0 < length sp5"
    using lnk usr grp sz blanks
    by (simp_all add: spec_word_def spec_blank_def spec_digits_def)
  have len: "\<not> length line < 10"
    using pos mon(2) unfolding line length_Cons length_append by linarith
  have t1w: "spec_word t1" using tyr(1) by (rule spec_digits_word)
  have tyr_hd: "\<not> isspace (hd p9)"
    using tyr(3) spec_word_hd [OF t1w] by (auto simp: p9_def)
  have p1: "skip_spaces (skip_nonspace (perms @ sp1 @ r2)) = r2"
    using skip_nonspace_append [OF perms, of "sp1 @ r2"] spec_blank_hd [OF blanks(1), of r2]
      skip_spaces_append [of sp1 r2] blanks(1) spec_word_hd [OF lnk, of "sp2 @ r3"]
    by (simp add: spec_blank_def r2_def)
  have p2: "skip_spaces (skip_nonspace r2) = r3"
    unfolding r2_def r3_def
    by (rule skip_field [OF lnk blanks(2)]) (simp add: spec_word_hd [OF usr])
  have p3: "skip_spaces (skip_nonspace r3) = r4"
    unfolding r3_def r4_def
    by (rule skip_field [OF usr blanks(3)]) (simp add: spec_word_hd [OF grp])
  have p4: "skip_spaces (skip_nonspace r4) = r5"
    unfolding r4_def r5_def
    by (rule skip_field [OF grp blanks(4)])
       (simp add: spec_word_hd [OF spec_digits_word [OF sz]])
  have p5: "scan_digits (0 :: 64 word) r5 = (of_nat (spec_decimal sz), sp5 @ r6)"
    and p6: "skip_spaces (sp5 @ r6) = r6"
    using scan_field [OF sz blanks(5), of r6, where 'a = 64] spec_word_hd [OF mon(1), of "sp6 @ r7"]
    by (simp_all add: r5_def r6_def)
  have m_len: "\<not> length r6 < 3" and m_take: "take 3 r6 = mon" and m_drop: "drop 3 r6 = sp6 @ r7"
    using mon(2) by (simp_all add: r6_def)
  have p7: "skip_spaces (sp6 @ r7) = r7"
    using skip_spaces_append [of sp6 r7] blanks(6) spec_word_hd [OF spec_digits_word [OF day], of "sp7 @ p9"]
    by (simp add: spec_blank_def r7_def)
  have p8: "scan_digits (0 :: 32 word) r7 = (of_nat (spec_decimal day), sp7 @ p9)"
    and p9': "skip_spaces (sp7 @ p9) = p9"
    using scan_field [OF day blanks(7), of p9, where 'a = 32] tyr_hd
    by (simp_all add: r7_def)
  have sp8_hd: "isspace (hd (sp8 @ rest))" "sp8 @ rest \<noteq> []"
    using spec_blank_hd [OF blanks(8), of rest] blanks(8) by (simp_all add: spec_blank_def)
  then have sp8_nd: "\<not> isdigit (hd (sp8 @ rest))" "hd (sp8 @ rest) \<noteq> CHR '':''"
    using isdigit_not_isspace [of "hd (sp8 @ rest)"] by (auto simp: isspace_def Let_def)
  have p11: "skip_spaces (sp8 @ rest) = rest"
    using skip_spaces_append [of sp8 rest] blanks(8) rest by (simp add: spec_blank_def)
  have year_form: "snd (scan_digits (0 :: 32 word) (t1 @ sp8 @ rest)) = sp8 @ rest"
    using scan_digits_append [of t1 "sp8 @ rest" 0, where 'a = 32] tyr(1) sp8_nd
    by (simp add: spec_digits_def)
  have blank_scan: "snd (scan_digits (0 :: 32 word) (sp8 @ rest)) = sp8 @ rest"
    using scan_digits_append [of "[]" "sp8 @ rest" 0, where 'a = 32] sp8_nd by simp
  have time_form1: "snd (scan_digits (0 :: 32 word) (t1 @ CHR '':'' # t2 @ sp8 @ rest))
                      = CHR '':'' # t2 @ sp8 @ rest"
    using scan_digits_append [of t1 "CHR '':'' # t2 @ sp8 @ rest" 0, where 'a = 32] tyr(1)
    by (simp add: spec_digits_def isdigit_def)
  have time_form2: "snd (scan_digits (0 :: 32 word) (t2 @ sp8 @ rest)) = sp8 @ rest"
    using scan_digits_append [of t2 "sp8 @ rest" 0, where 'a = 32] tyr(2) sp8_nd
    by simp
  have colon: "strchr (t1 @ CHR '':'' # t2 @ sp8 @ rest) CHR '':''"
    by (induction t1) auto
  let ?cut = "case strstr rest '' -> '' of Some arrow \<Rightarrow> take arrow rest | None \<Rightarrow> rest"
  have main: "\<exists>it. parse_unix_listing cy mk line = Some it
                \<and> name it = take (MAX_PATH_LEN - 1) ?cut
                \<and> item_type it = (if k = CHR ''d'' then FTP_TYPE_DIR
                                   else if k = CHR ''-'' then FTP_TYPE_FILE else FTP_TYPE_LINK)"
    using tyr(3)
  proof
    assume y: "tyr = t1"
    then have sc1: "snd (scan_digits (0 :: 32 word) p9) = sp8 @ rest"
      using year_form by (simp add: p9_def)
    show ?thesis
    proof (cases "strchr p9 CHR '':''")
      case True
      with kind len mon(3) rest(1) sp8_hd sp8_nd show ?thesis
        unfolding parse_unix_listing_def Let_def split_beta line'
        by (auto simp: p1 p2 p3 p4 p5 p6 m_len m_take m_drop p7 p8 p9' sc1
            blank_scan p11 strncpy_def cong: option.case_cong)
    next
      case False
      with kind len mon(3) rest(1) show ?thesis
        unfolding parse_unix_listing_def Let_def split_beta line'
        by (auto simp: p1 p2 p3 p4 p5 p6 m_len m_take m_drop p7 p8 p9' sc1
            p11 strncpy_def cong: option.case_cong)
    qed
  next
    assume t: "tyr = t1 @ CHR '':'' # t2"
    then have sc1: "snd (scan_digits (0 :: 32 word) p9) = CHR '':'' # t2 @ sp8 @ rest"
      and col: "strchr p9 CHR '':''"
      using time_form1 colon by (simp_all add: p9_def)
    from kind len mon(3) rest(1) col show ?thesis
      unfolding parse_unix_listing_def Let_def split_beta line'
      by (auto simp: p1 p2 p3 p4 p5 p6 m_len m_take m_drop p7 p8 p9' sc1
          time_form2 p11 strncpy_def cong: option.case_cong)
  qed
  then obtain it where it: "parse_unix_listing cy mk line = Some it"
    "name it = take (MAX_PATH_LEN - 1) ?cut"
    "item_type it = (if k = CHR ''d'' then FTP_TYPE_DIR
                     else if k = CHR ''-'' then FTP_TYPE_FILE else FTP_TYPE_LINK)"
    by blast
  have third: "map_option name (parse_unix_listing cy mk line) = Some (take (MAX_PATH_LEN - 1) nm)"
    if "rest = nm @ '' -> '' @ tgt" "CHR ''>'' \<notin> set nm"
    using it(1,2) strstr_append_arrow [OF that(2), of tgt] that(1) by simp
  from it third show ?thesis by simp
qed

theorem unix_name_cut_at_arrow_witness:
  "map_option name (parse_unix_listing 2026 mktime_const
      ''-rw-r--r-- 1 u g 42 Feb 15 2023 my file -> t'') = Some ''my file''
   \<and> map_option item_type (parse_unix_listing 2026 mktime_const
      ''-rw-r--r-- 1 u g 42 Feb 15 2023 my file -> t'') = Some FTP_TYPE_FILE"
proof -
  have w: "spec_word ''1''" "spec_word ''u''" "spec_word ''g''" "spec_word ''Feb''"
    "list_all (\<lambda>c. \<not> isspace c) ''rw-r--r--''"
    by (simp_all add: spec_word_def isspace_def)
  have d: "spec_digits ''42''" "spec_digits ''15''" "spec_digits ''2023''" "list_all isdigit []"
    by (simp_all add: spec_digits_def isdigit_def)
  have b: "spec_blank '' ''"
    by (simp add: spec_blank_def isspace_def)
  have r: "''my file -> t'' \<noteq> []" "\<not> isspace (hd ''my file -> t'')"
    by (simp_all add: isspace_def)
  note t = unix_name_cut_at_arrow [where k = "CHR ''-''" and perms = "''rw-r--r--''"
      and lnk = "''1''" and usr = "''u''" and grp = "''g''" and sz = "''42''"
      and mon = "''Feb''" and day = "''15''" and ?t1.0 = "''2023''" and ?t2.0 = "[]"
      and tyr = "''2023''" and ?sp1.0 = "'' ''" and ?sp2.0 = "'' ''" and ?sp3.0 = "'' ''"
      and ?sp4.0 = "'' ''" and ?sp5.0 = "'' ''" and ?sp6.0 = "'' ''" and ?sp7.0 = "'' ''"
      and ?sp8.0 = "'' ''" and rest = "''my file -> t''"
      and line = "''-rw-r--r-- 1 u g 42 Feb 15 2023 my file -> t''"
      and nm = "''my file''" and tgt = "''t''" and cy = 2026 and mk = mktime_const]
  have "map_option name (parse_unix_listing 2026 mktime_const
            ''-rw-r--r-- 1 u g 42 Feb 15 2023 my file -> t'')
          = Some (take (MAX_PATH_LEN - 1) ''my file'')
        \<and> map_option item_type (parse_unix_listing 2026 mktime_const
            ''-rw-r--r-- 1 u g 42 Feb 15 2023 my file -> t'') = Some FTP_TYPE_FILE"
    using t [OF _ w(5) w(1) w(2) w(3) d(1) w(4) _ parse_month_Feb d(2) d(3) d(4) _
               b b b b b b b b r]
    by simp
  then show ?thesis by (simp add: MAX_PATH_LEN_def)
qed

section \<open>Properties of the filesystem operations\<close>

text \<open>The slot \<^verbatim>\<open>cftpfs_open\<close> takes is the first free one.\<close>

declare find_free_slot.simps [simp del]

lemma find_free_slot_first:
  "find_free_slot hs i = Some k \<longleftrightarrow>
     i \<le> k \<and> k < MAX_HANDLES \<and> hs k = None \<and> (\<forall>j. i \<le> j \<and> j < k \<longrightarrow> hs j \<noteq> None)"
proof (induction hs i rule: find_free_slot.induct)
  case (1 hs i)
  show ?case
  proof (cases "i < MAX_HANDLES")
    case False
    then show ?thesis
      by (subst find_free_slot.simps) auto
  next
    case lt: True
    show ?thesis
    proof (cases "hs i = None")
      case True
      have "k = i" if "i \<le> k" "\<forall>j. i \<le> j \<and> j < k \<longrightarrow> hs j \<noteq> None"
      proof (rule ccontr)
        assume "k \<noteq> i"
        with that(1) have "i < k" by simp
        with that(2) True show False by blast
      qed
      with lt True show ?thesis
        by (subst find_free_slot.simps) auto
    next
      case False
      have step: "find_free_slot hs i = find_free_slot hs (Suc i)"
        using lt False by (subst find_free_slot.simps) auto
      have "(i \<le> k \<and> k < MAX_HANDLES \<and> hs k = None \<and> (\<forall>j. i \<le> j \<and> j < k \<longrightarrow> hs j \<noteq> None))
            \<longleftrightarrow> (Suc i \<le> k \<and> k < MAX_HANDLES \<and> hs k = None
                 \<and> (\<forall>j. Suc i \<le> j \<and> j < k \<longrightarrow> hs j \<noteq> None))"
        using False by (metis Suc_leD Suc_leI le_neq_implies_less not_less_eq_eq option.exhaust)
      with "1.IH" [OF lt False] step show ?thesis
        by simp
    qed
  qed
qed

text \<open>
  C4. Take an open that is not read-only and gets a handle: the spill file is created
  and \<open>k\<close> is the first free slot. If \<^verbatim>\<open>O_CREAT\<close> is set and \<^verbatim>\<open>O_TRUNC\<close> is clear, no
  call is made on the FTP adapter and the handle is stored with \<open>is_new\<close> set. For every
  other combination of the two flags, one download of the path into the spill file is
  issued and \<open>is_new\<close> stays false. The remote is not consulted for the choice, so it is
  the same when the file already exists there.
\<close>

theorem cftpfs_open_priming:
  assumes rw: "fl AND O_ACCMODE \<noteq> O_RDONLY"
    and slot: "k < MAX_HANDLES" "file_handles ctx k = None" "\<forall>j < k. file_handles ctx j \<noteq> None"
  shows "cftpfs_open ctx p fl (Some tp) =
     (if fl AND O_CREAT \<noteq> 0 \<and> fl AND O_TRUNC = 0
      then (0, Some k,
            ctx\<lparr>file_handles := (file_handles ctx)
                   (k \<mapsto> \<lparr>fd = - 1, fh_path = take (MAX_PATH_LEN - 1) p, temp_path = tp,
                          flags = fl, dirty = False, is_new = True\<rparr>)\<rparr>)
      else (0, Some k,
            ctx\<lparr>file_handles := (file_handles ctx)
                   (k \<mapsto> \<lparr>fd = - 1, fh_path = take (MAX_PATH_LEN - 1) p, temp_path = tp,
                          flags = fl, dirty = False, is_new = False\<rparr>),
                ftp_calls := Ftp_download p tp # ftp_calls ctx\<rparr>))"
proof -
  have "find_free_slot (file_handles ctx) 0 = Some k"
    using slot by (simp add: find_free_slot_first)
  with rw show ?thesis
    by (simp add: cftpfs_open_def handle_create_def strncpy_def)
qed

text \<open>
  An open that gets no handle, because the spill file cannot be created or every slot is
  taken, returns \<^verbatim>\<open>-EMFILE\<close> and calls nothing on the FTP adapter; a read-only open
  returns 0 without a handle.
\<close>

lemma cftpfs_open_no_handle:
  assumes "fl AND O_ACCMODE \<noteq> O_RDONLY"
    and "spill = None \<or> find_free_slot (file_handles ctx) 0 = None"
  shows "fst (cftpfs_open ctx p fl spill) = - EMFILE"
    and "fst (snd (cftpfs_open ctx p fl spill)) = None"
    and "ftp_calls (snd (snd (cftpfs_open ctx p fl spill))) = ftp_calls ctx"
    and "file_handles (snd (snd (cftpfs_open ctx p fl spill))) = file_handles ctx"
  using assms by (auto simp: cftpfs_open_def handle_create_def split: option.splits)

lemma cftpfs_open_read_only:
  "fl AND O_ACCMODE = O_RDONLY \<Longrightarrow> cftpfs_open ctx p fl spill = (0, None, ctx)"
  by (simp add: cftpfs_open_def)

lemma O_defs_eval:
  "(O_WRONLY OR O_CREAT) AND O_ACCMODE \<noteq> O_RDONLY"
  "(O_WRONLY OR O_CREAT) AND O_CREAT \<noteq> 0"
  "(O_WRONLY OR O_CREAT) AND O_TRUNC = 0"
  "O_WRONLY AND O_ACCMODE \<noteq> O_RDONLY"
  "O_WRONLY AND O_CREAT = 0"
  by (simp_all add: O_WRONLY_def O_CREAT_def O_ACCMODE_def O_RDONLY_def O_TRUNC_def)

theorem cftpfs_open_priming_witness:
  "cftpfs_open (initial_context 30) ''/new.txt'' (O_WRONLY OR O_CREAT) (Some ''/tmp/s1'')
     = (0, Some 0,
        (initial_context 30)\<lparr>file_handles := (file_handles (initial_context 30))
           (0 \<mapsto> \<lparr>fd = - 1, fh_path = ''/new.txt'', temp_path = ''/tmp/s1'',
                  flags = O_WRONLY OR O_CREAT, dirty = False, is_new = True\<rparr>)\<rparr>)
   \<and> cftpfs_open (initial_context 30) ''/old.txt'' O_WRONLY (Some ''/tmp/s2'')
     = (0, Some 0,
        (initial_context 30)\<lparr>file_handles := (file_handles (initial_context 30))
           (0 \<mapsto> \<lparr>fd = - 1, fh_path = ''/old.txt'', temp_path = ''/tmp/s2'',
                  flags = O_WRONLY, dirty = False, is_new = False\<rparr>),
           ftp_calls := [Ftp_download ''/old.txt'' ''/tmp/s2'']\<rparr>)"
proof -
  have s: "(0::nat) < MAX_HANDLES" "file_handles (initial_context 30) 0 = None"
    "\<forall>j < (0::nat). file_handles (initial_context 30) j \<noteq> None"
    by (simp_all add: MAX_HANDLES_def initial_context_def cache_init_def)
  have c: "ftp_calls (initial_context 30) = []"
    by (simp add: initial_context_def cache_init_def)
  from cftpfs_open_priming [OF O_defs_eval(1) s, of "''/new.txt''" "''/tmp/s1''"]
    cftpfs_open_priming [OF O_defs_eval(4) s, of "''/old.txt''" "''/tmp/s2''"]
  show ?thesis
    by (simp add: c MAX_PATH_LEN_def O_WRONLY_def O_CREAT_def O_ACCMODE_def O_RDONLY_def
        O_TRUNC_def)
qed

text \<open>
  Release of a handle. Below a directory other than the root, a handle that is dirty or
  new is uploaded to the path and the parent is invalidated, so a \<open>get\<close> of the parent
  misses; a handle with neither flag causes no upload and leaves the cache alone. For a
  path directly below the root the last slash is the first byte, and the upload is issued
  but \<^verbatim>\<open>cache_invalidate\<close> is not called.
\<close>

lemma cache_get_after_invalidate:
  "fst (cache_get (cache_invalidate ctx p) now p) = None"
proof -
  have "p \<notin> path ` set (filter (\<lambda>e. \<not> prefix p (path e)) (dir_cache ctx))"
    by auto
  then show ?thesis
    by (simp add: cache_get_def cache_invalidate_def cache_invalidate_loop_filter
        cache_get_loop_absent)
qed

lemma cftpfs_release_writeback:
  assumes "fh_id < MAX_HANDLES" and "file_handles ctx fh_id = Some fh"
    and "dirty fh \<or> is_new fh"
    and "strrchr p CHR ''/'' = Some last_slash" and "last_slash \<noteq> 0"
  shows "ftp_calls (snd (cftpfs_release ctx p fh_id)) = Ftp_upload (temp_path fh) p # ftp_calls ctx"
    and "dir_cache (snd (cftpfs_release ctx p fh_id))
           = dir_cache (cache_invalidate ctx (take last_slash p))"
    and "fst (cache_get (snd (cftpfs_release ctx p fh_id)) now (take last_slash p)) = None"
    and "file_handles (snd (cftpfs_release ctx p fh_id)) fh_id = None"
proof -
  let ?up = "ctx\<lparr>ftp_calls := Ftp_upload (temp_path fh) p # ftp_calls ctx\<rparr>"
  have rel: "snd (cftpfs_release ctx p fh_id)
               = handle_release (cache_invalidate ?up (take last_slash p)) fh_id"
    using assms by (auto simp: cftpfs_release_def invalidate_parent_def Let_def)
  have hr: "handle_release (cache_invalidate ?up (take last_slash p)) fh_id
              = (cache_invalidate ?up (take last_slash p))
                  \<lparr>file_handles := (file_handles ctx)(fh_id := None),
                   unlinked := (if length (temp_path fh) > 0
                                then temp_path fh # unlinked ctx else unlinked ctx)\<rparr>"
    using assms(1,2) by (simp add: handle_release_def cache_invalidate_def)
  show "ftp_calls (snd (cftpfs_release ctx p fh_id)) = Ftp_upload (temp_path fh) p # ftp_calls ctx"
    unfolding rel hr by (simp add: cache_invalidate_def)
  show dc: "dir_cache (snd (cftpfs_release ctx p fh_id))
           = dir_cache (cache_invalidate ctx (take last_slash p))"
    unfolding rel hr by (simp add: cache_invalidate_def)
  have "fst (cache_get c1 now q) = fst (cache_get c2 now q)"
    if "dir_cache c1 = dir_cache c2" "cache_timeout c1 = cache_timeout c2" for c1 c2 q
    using that by (simp add: cache_get_def Let_def split: prod.splits)
  from this [of "snd (cftpfs_release ctx p fh_id)" "cache_invalidate ctx (take last_slash p)"]
  show "fst (cache_get (snd (cftpfs_release ctx p fh_id)) now (take last_slash p)) = None"
    using dc cache_get_after_invalidate [of ctx "take last_slash p" now]
    unfolding rel hr by (simp add: cache_invalidate_def)
  show "file_handles (snd (cftpfs_release ctx p fh_id)) fh_id = None"
    unfolding rel hr by simp
qed

lemma cftpfs_release_clean:
  assumes "fh_id < MAX_HANDLES" and "file_handles ctx fh_id = Some fh"
    and "\<not> dirty fh" and "\<not> is_new fh"
  shows "ftp_calls (snd (cftpfs_release ctx p fh_id)) = ftp_calls ctx"
    and "dir_cache (snd (cftpfs_release ctx p fh_id)) = dir_cache ctx"
  using assms by (simp_all add: cftpfs_release_def handle_release_def Let_def)

lemma cftpfs_release_root_level:
  assumes "fh_id < MAX_HANDLES" and "file_handles ctx fh_id = Some fh"
    and "dirty fh \<or> is_new fh" and "CHR ''/'' \<notin> set nm"
  shows "ftp_calls (snd (cftpfs_release ctx (CHR ''/'' # nm) fh_id))
           = Ftp_upload (temp_path fh) (CHR ''/'' # nm) # ftp_calls ctx"
    and "dir_cache (snd (cftpfs_release ctx (CHR ''/'' # nm) fh_id)) = dir_cache ctx"
proof -
  have "strrchr nm CHR ''/'' = None"
    using assms(4) by (induction nm) auto
  then have "strrchr (CHR ''/'' # nm) CHR ''/'' = Some 0"
    by simp
  with assms(1-3) show
    "ftp_calls (snd (cftpfs_release ctx (CHR ''/'' # nm) fh_id))
           = Ftp_upload (temp_path fh) (CHR ''/'' # nm) # ftp_calls ctx"
    "dir_cache (snd (cftpfs_release ctx (CHR ''/'' # nm) fh_id)) = dir_cache ctx"
    by (auto simp: cftpfs_release_def invalidate_parent_def handle_release_def Let_def)
qed

text \<open>The definitions the two scenarios unfold to.\<close>

lemmas scenario_defs =
  root_listed_def root_file_opened_def root_file_released_def
  root_attr_cached_def root_file_renamed_def file_item_def
  initial_context_def cache_init_def cache_put_def cache_get_def cache_invalidate_def
  cftpfs_readdir_def cftpfs_open_def cftpfs_release_def cftpfs_rename_def cftpfs_getattr_def
  handle_create_def handle_release_def invalidate_parent_def
  strncpy_def MAX_PATH_LEN_def MAX_HANDLES_def CACHE_TIMEOUT_DEFAULT_def
  O_WRONLY_def O_CREAT_def O_ACCMODE_def O_RDONLY_def O_TRUNC_def
  ENOENT_def EIO_def EMFILE_def Let_def

lemma find_free_slot_0: "hs 0 = None \<Longrightarrow> find_free_slot hs 0 = Some 0"
  by (subst find_free_slot.simps) (simp add: MAX_HANDLES_def)

text \<open>
  C1, at a file of the root directory. After the root has been listed at time 100,
  \<^verbatim>\<open>/new.txt\<close> is opened with \<^verbatim>\<open>O_WRONLY | O_CREAT\<close> (so the handle is new) and
  released. The spill is uploaded to \<^verbatim>\<open>/new.txt\<close>, but the entry of the parent \<^verbatim>\<open>/\<close>
  is still in the cache: a \<open>get\<close> of \<^verbatim>\<open>/\<close> at time 101 hits, and \<^verbatim>\<open>readdir\<close> of the
  root then answers from the cache without the new file, whatever the remote lists.
\<close>

theorem release_in_root_keeps_root_listing:
  "ftp_calls root_file_released
     = [Ftp_upload ''/tmp/cftpfs_1_1/fh_1_1_0x1'' ''/new.txt'', Ftp_list_dir ''/'']
   \<and> dir_cache root_file_released
     = [\<lparr>path = ''/'', items = [], item_count = 0, timestamp = 100\<rparr>]
   \<and> fst (cache_get root_file_released 101 ''/'')
     = Some \<lparr>path = ''/'', items = [], item_count = 0, timestamp = 100\<rparr>
   \<and> fst (snd (cftpfs_readdir root_file_released 101 101 ''/'' (0, [file_item ''new.txt''], 1)))
     = [''.'', ''..'']"
  by (simp add: scenario_defs find_free_slot_0)

text \<open>
  C9, after \<^verbatim>\<open>getattr\<close> on a file of the root directory. \<^verbatim>\<open>getattr\<close> of \<^verbatim>\<open>/a\<close>
  cuts the path at its last slash and caches the listing of the root under the empty
  path. A successful rename of \<^verbatim>\<open>/a\<close> to \<^verbatim>\<open>/b\<close> invalidates the prefix \<^verbatim>\<open>/\<close>,
  which the empty path does not have: the cache is left as it was, not empty as
  \<^verbatim>\<open>cache_clear\<close> would leave it, and at time 101 \<^verbatim>\<open>getattr\<close> still answers from it,
  not finding \<^verbatim>\<open>/b\<close> and finding \<^verbatim>\<open>/a\<close>.
\<close>

theorem rename_keeps_empty_key:
  "dir_cache root_attr_cached
     = [\<lparr>path = '''', items = [file_item ''a''], item_count = 1, timestamp = 100\<rparr>]
   \<and> dir_cache root_file_renamed = dir_cache root_attr_cached
   \<and> dir_cache root_file_renamed \<noteq> dir_cache (cache_clear root_file_renamed)
   \<and> fst (cftpfs_getattr root_file_renamed 101 101 ''/b'' (0, [file_item ''b''], 1)) = - ENOENT
   \<and> fst (cftpfs_getattr root_file_renamed 101 101 ''/a'' (0, [file_item ''b''], 1)) = 0"
  by (simp add: scenario_defs cache_clear_def)

end
